theory Spec2Isabelle
  imports Complex_Main
begin

section \<open>The calculation engine of n8n-nodes-ethena\<close>

text \<open>
  The engine consists of four utility modules: the yield, delta-neutral, cooldown and
  points utilities (\<^verbatim>\<open>yieldUtils\<close>, \<^verbatim>\<open>deltaUtils\<close>, \<^verbatim>\<open>cooldownUtils\<close>, \<^verbatim>\<open>pointsUtils\<close>).
  Of each module the functions that the statements below are about are modelled, with
  the functions and tables they call.

  Numbers. A TypeScript \<^verbatim>\<open>number\<close> argument is a finite number and is modelled by a
  \<^typ>\<open>real\<close>. The functions are modelled in exact arithmetic first: the operations on
  finite numbers are those of the reals, without the rounding of IEEE-754 doubles and
  without overflow. Where the source can leave the finite numbers (a division whose
  divisor may be zero, \<^verbatim>\<open>Math.pow\<close>), the value is a \<open>number\<close>, which adds \<open>Infinity\<close>,
  \<open>-Infinity\<close> and \<open>NaN\<close>; zero stands for \<open>+0\<close>. The field \<^verbatim>\<open>progress\<close> of
  \<^verbatim>\<open>calculateCooldownStatus\<close>, which the code rounds to two decimals, is computed with
  every operation rounded to a double. A later section gives three more functions with
  every operation rounded to a double, for the statements that bound the error of a
  computation or compare the results of two different computations. A \<^verbatim>\<open>bigint\<close> is an
  \<^typ>\<open>int\<close>, and so is a Unix timestamp (whole seconds) and a \<^verbatim>\<open>Date\<close> (whole milliseconds
  since the epoch).
\<close>

subsection \<open>JavaScript numbers\<close>

datatype number = Fin real | PInf | NInf | NaN

fun js_neg :: "number \<Rightarrow> number" where
  "js_neg (Fin a) = Fin (- a)"
| "js_neg PInf = NInf"
| "js_neg NInf = PInf"
| "js_neg NaN = NaN"

fun js_add :: "number \<Rightarrow> number \<Rightarrow> number" where
  "js_add NaN y = NaN"
| "js_add x NaN = NaN"
| "js_add (Fin a) (Fin b) = Fin (a + b)"
| "js_add PInf NInf = NaN"
| "js_add NInf PInf = NaN"
| "js_add PInf y = PInf"
| "js_add x PInf = PInf"
| "js_add NInf y = NInf"
| "js_add x NInf = NInf"

definition js_sub :: "number \<Rightarrow> number \<Rightarrow> number" where
  "js_sub x y = js_add x (js_neg y)"

text \<open>The sign of an infinite product or quotient: \<open>NaN\<close> against a zero.\<close>

definition signed_inf :: "real \<Rightarrow> number" where
  "signed_inf s = (if s = 0 then NaN else if 0 < s then PInf else NInf)"

fun js_mul :: "number \<Rightarrow> number \<Rightarrow> number" where
  "js_mul NaN y = NaN"
| "js_mul x NaN = NaN"
| "js_mul (Fin a) (Fin b) = Fin (a * b)"
| "js_mul PInf (Fin b) = signed_inf b"
| "js_mul NInf (Fin b) = signed_inf (- b)"
| "js_mul (Fin a) PInf = signed_inf a"
| "js_mul (Fin a) NInf = signed_inf (- a)"
| "js_mul PInf PInf = PInf"
| "js_mul NInf NInf = PInf"
| "js_mul PInf NInf = NInf"
| "js_mul NInf PInf = NInf"

fun js_div :: "number \<Rightarrow> number \<Rightarrow> number" where
  "js_div NaN y = NaN"
| "js_div x NaN = NaN"
| "js_div (Fin a) (Fin b) = (if b = 0 then signed_inf a else Fin (a / b))"
| "js_div (Fin a) PInf = Fin 0"
| "js_div (Fin a) NInf = Fin 0"
| "js_div PInf (Fin b) = (if 0 \<le> b then PInf else NInf)"
| "js_div NInf (Fin b) = (if 0 \<le> b then NInf else PInf)"
| "js_div PInf y = NaN"
| "js_div NInf y = NaN"

definition is_integer :: "real \<Rightarrow> bool" where
  "is_integer x = (x = of_int \<lfloor>x\<rfloor>)"

definition is_odd_integer :: "real \<Rightarrow> bool" where
  "is_odd_integer x = (is_integer x \<and> odd \<lfloor>x\<rfloor>)"

text \<open>
  \<^verbatim>\<open>Math.pow\<close> (ECMAScript \<open>Number::exponentiate\<close>): a zero exponent gives 1 for every
  base, \<open>NaN\<close> included; a negative base with a fractional exponent gives \<open>NaN\<close>.
\<close>

fun js_pow :: "number \<Rightarrow> number \<Rightarrow> number" where
  "js_pow b NaN = NaN"
| "js_pow b (Fin e) =
     (if e = 0 then Fin 1
      else case b of
        NaN \<Rightarrow> NaN
      | PInf \<Rightarrow> (if 0 < e then PInf else Fin 0)
      | NInf \<Rightarrow> (if 0 < e then (if is_odd_integer e then NInf else PInf) else Fin 0)
      | Fin a \<Rightarrow>
          (if a = 0 then (if 0 < e then Fin 0 else PInf)
           else if 0 < a then Fin (a powr e)
           else if is_integer e then Fin (power_int a \<lfloor>e\<rfloor>)
           else NaN))"
| "js_pow b PInf =
     (case b of
        NaN \<Rightarrow> NaN
      | PInf \<Rightarrow> PInf
      | NInf \<Rightarrow> PInf
      | Fin a \<Rightarrow> (if 1 < \<bar>a\<bar> then PInf else if \<bar>a\<bar> = 1 then NaN else Fin 0))"
| "js_pow b NInf =
     (case b of
        NaN \<Rightarrow> NaN
      | PInf \<Rightarrow> Fin 0
      | NInf \<Rightarrow> Fin 0
      | Fin a \<Rightarrow> (if 1 < \<bar>a\<bar> then Fin 0 else if \<bar>a\<bar> = 1 then NaN else PInf))"

subsection \<open>Doubles\<close>

text \<open>
  A JavaScript number is an IEEE-754 double, and every arithmetic operation returns the
  double nearest to the exact result, a tie going to the even significand. \<open>fl x\<close> is
  that double for a real \<open>x\<close> in the range of the normal doubles (overflow and the
  subnormal numbers are not represented): \<open>binade x\<close> is the exponent \<open>e\<close> with
  \<open>2 ^ e \<le> \<bar>x\<bar> < 2 ^ (e + 1)\<close>, found by at most 1100 doublings or halvings, and the
  significand keeps 53 bits. The operations \<open>d_add\<close>, \<open>d_sub\<close>, \<open>d_mul\<close> and \<open>d_div\<close> round
  the exact result.
\<close>

definition round_half_even :: "real \<Rightarrow> int" where
  "round_half_even x =
     (let f = \<lfloor>x\<rfloor>; r = x - of_int f
      in if r < 1 / 2 then f else if 1 / 2 < r then f + 1 else if even f then f else f + 1)"

fun binade_from :: "nat \<Rightarrow> int \<Rightarrow> real \<Rightarrow> int" where
  "binade_from 0 e a = e"
| "binade_from (Suc n) e a =
     (if 2 \<le> a then binade_from n (e + 1) (a / 2)
      else if a < 1 then binade_from n (e - 1) (a * 2)
      else e)"

definition binade :: "real \<Rightarrow> int" where
  "binade x = binade_from 1100 0 \<bar>x\<bar>"

definition fl :: "real \<Rightarrow> real" where
  "fl x = (if x = 0 then 0
           else of_int (round_half_even (x * 2 powi (52 - binade x))) * 2 powi (binade x - 52))"

fun fl_number :: "number \<Rightarrow> number" where
  "fl_number (Fin x) = Fin (fl x)"
| "fl_number PInf = PInf"
| "fl_number NInf = NInf"
| "fl_number NaN = NaN"

definition d_add :: "number \<Rightarrow> number \<Rightarrow> number" where
  "d_add x y = fl_number (js_add x y)"

definition d_sub :: "number \<Rightarrow> number \<Rightarrow> number" where
  "d_sub x y = fl_number (js_sub x y)"

definition d_mul :: "number \<Rightarrow> number \<Rightarrow> number" where
  "d_mul x y = fl_number (js_mul x y)"

definition d_div :: "number \<Rightarrow> number \<Rightarrow> number" where
  "d_div x y = fl_number (js_div x y)"

text \<open>
  \<^verbatim>\<open>Math.pow\<close> on doubles. ECMAScript leaves the accuracy of the power to the
  implementation. A call returns the double nearest to \<open>1 + err\<close> times the exact power,
  where \<open>err\<close> is the relative error the implementation makes at the call: \<open>err = 0\<close> is
  the correctly rounded power, and the result of an implementation that is accurate to one
  unit in the last place has \<open>\<bar>err\<bar> \<le> 2 ^ -52\<close>.
\<close>

definition Math_pow :: "real \<Rightarrow> number \<Rightarrow> number \<Rightarrow> number" where
  "Math_pow err x y = fl_number (js_mul (js_pow x y) (Fin (1 + err)))"

subsection \<open>Numbers in template strings\<close>

text \<open>
  The decimal numeral of an integer, as a template literal prints it, and the two string
  methods the engine uses.
\<close>

definition digit_char :: "nat \<Rightarrow> char" where
  "digit_char d = char_of (48 + d)"

fun show_nat :: "nat \<Rightarrow> string" where
  "show_nat n = (if n < 10 then [digit_char n] else show_nat (n div 10) @ [digit_char (n mod 10)])"

declare show_nat.simps [simp del]

definition show_int :: "int \<Rightarrow> string" where
  "show_int k = (if k < 0 then CHR ''-'' # show_nat (nat (- k)) else show_nat (nat k))"

fun join :: "string \<Rightarrow> string list \<Rightarrow> string" where
  "join sep [] = []"
| "join sep [p] = p"
| "join sep (p # ps) = p @ sep @ join sep ps"

definition trim :: "string \<Rightarrow> string" where
  "trim s = rev (dropWhile (\<lambda>c. c = CHR '' '') (rev (dropWhile (\<lambda>c. c = CHR '' '') s)))"

subsection \<open>The yield utilities (yieldUtils)\<close>

text \<open>
  The specification names one kind of failure, \<open>InvalidArgument\<close>. No function of the
  engine contains a \<^verbatim>\<open>throw\<close>. The two functions whose behaviour at a zero divisor is
  stated below, \<^verbatim>\<open>calculateEarnings\<close> and \<^verbatim>\<open>calculatePercentile\<close>, return \<open>error + _\<close>; as
  no path of the source raises, each of their results is an \<open>Inr\<close>.
\<close>

datatype error = InvalidArgument

definition aprToApy :: "real \<Rightarrow> real \<Rightarrow> number" where
  "aprToApy apr compoundingPeriods =
     js_sub (js_pow (js_add (Fin 1) (js_div (Fin apr) (Fin compoundingPeriods)))
                    (Fin compoundingPeriods))
            (Fin 1)"

definition apyToApr :: "real \<Rightarrow> real \<Rightarrow> number" where
  "apyToApr apy compoundingPeriods =
     js_mul (Fin compoundingPeriods)
       (js_sub (js_pow (js_add (Fin 1) (Fin apy)) (js_div (Fin 1) (Fin compoundingPeriods)))
               (Fin 1))"

record Earnings =
  finalAmount :: number
  earnings :: number
  dailyEarnings :: number

text \<open>The parameter \<^verbatim>\<open>principal\<close> is written \<open>principal'\<close>.\<close>

definition calculateEarnings :: "real \<Rightarrow> real \<Rightarrow> real \<Rightarrow> bool \<Rightarrow> error + Earnings" where
  "calculateEarnings principal' apy days compounding =
     (let finalAmount =
            (if compounding then
               (let dailyRate =
                      js_sub (js_pow (js_add (Fin 1) (Fin apy)) (js_div (Fin 1) (Fin 365)))
                             (Fin 1)
                in js_mul (Fin principal') (js_pow (js_add (Fin 1) dailyRate) (Fin days)))
             else
               (let dailyRate = js_div (Fin apy) (Fin 365)
                in js_mul (Fin principal') (js_add (Fin 1) (js_mul dailyRate (Fin days)))));
          earnings = js_sub finalAmount (Fin principal');
          dailyEarnings = js_div earnings (Fin days)
      in Inr \<lparr>finalAmount = finalAmount, earnings = earnings, dailyEarnings = dailyEarnings\<rparr>)"

subsection \<open>The delta-neutral utilities (deltaUtils)\<close>

definition calculateLiquidationPrice :: "real \<Rightarrow> real \<Rightarrow> bool \<Rightarrow> real \<Rightarrow> number" where
  "calculateLiquidationPrice entryPrice leverage isShort maintenanceMargin =
     (let marginRatio = js_div (Fin 1) (Fin leverage)
      in if isShort then
           js_mul (Fin entryPrice) (js_sub (js_add (Fin 1) marginRatio) (Fin maintenanceMargin))
         else
           js_mul (Fin entryPrice) (js_add (js_sub (Fin 1) marginRatio) (Fin maintenanceMargin)))"

text \<open>
  An element of the argument of \<^verbatim>\<open>calculateCounterpartyRisk\<close>; \<open>pos_value\<close> is its field
  \<^verbatim>\<open>value\<close>.
\<close>

record Position =
  exchange :: string
  pos_value :: real

text \<open>
  The object \<^verbatim>\<open>distribution\<close> starts as \<^verbatim>\<open>{}\<close> and is read and written under the exchange
  name. Its own properties are an association list in order of creation. A read of a name
  that is not an own property finds \<^verbatim>\<open>undefined\<close>, unless \<^verbatim>\<open>Object.prototype\<close> has a
  member of that name: that member is truthy, so \<^verbatim>\<open>(distribution[k] || 0) + percent\<close> is a
  string concatenation, and a string stays a string under further \<^verbatim>\<open>+\<close>. The write to
  \<^verbatim>\<open>__proto__\<close> reaches the inherited setter, which ignores a string. A stored value is
  therefore a number or a string (\<open>PStr\<close>, whose text never reads as a number).
\<close>

datatype property = PNum real | PStr

definition Object_prototype_names :: "string list" where
  "Object_prototype_names =
     [''constructor'', ''hasOwnProperty'', ''isPrototypeOf'', ''propertyIsEnumerable'',
      ''toLocaleString'', ''toString'', ''valueOf'', ''__proto__'', ''__defineGetter__'',
      ''__defineSetter__'', ''__lookupGetter__'', ''__lookupSetter__'']"

fun obj_set :: "(string \<times> 'v) list \<Rightarrow> string \<Rightarrow> 'v \<Rightarrow> (string \<times> 'v) list" where
  "obj_set [] k v = [(k, v)]"
| "obj_set ((k', v') # d) k v = (if k' = k then (k, v) # d else (k', v') # obj_set d k v)"

text \<open>The statement \<^verbatim>\<open>distribution[k] = (distribution[k] || 0) + percent\<close>.\<close>

definition add_percent ::
  "(string \<times> property) list \<Rightarrow> string \<Rightarrow> real \<Rightarrow> (string \<times> property) list" where
  "add_percent d k percent =
     (case map_of d k of
        Some (PNum v) \<Rightarrow> obj_set d k (PNum ((if v \<noteq> 0 then v else 0) + percent))
      | Some PStr \<Rightarrow> obj_set d k PStr
      | None \<Rightarrow>
          if k \<in> set Object_prototype_names
          then (if k = ''__proto__'' then d else obj_set d k PStr)
          else obj_set d k (PNum (0 + percent)))"

fun to_number :: "property \<Rightarrow> number" where
  "to_number (PNum v) = Fin v"
| "to_number PStr = NaN"

text \<open>
  The result object without its field \<^verbatim>\<open>largestExposure\<close>, which no statement below
  concerns. \<^verbatim>\<open>Object.values\<close> lists integer-like names first; the reduction over it is a
  sum, which does not depend on the order.
\<close>

record CounterpartyRisk =
  distribution :: "(string \<times> property) list"
  concentration :: number

definition calculateCounterpartyRisk :: "Position list \<Rightarrow> CounterpartyRisk" where
  "calculateCounterpartyRisk positions =
     (let total = foldl (\<lambda>sum p. sum + \<bar>pos_value p\<bar>) 0 positions;
          distribution =
            foldl (\<lambda>d pos.
                     (let percent = (if total > 0 then \<bar>pos_value pos\<bar> / total * 100 else 0)
                      in add_percent d (exchange pos) percent))
                  [] positions;
          concentration =
            foldl (\<lambda>sum p. js_add sum (js_pow (js_div (to_number p) (Fin 100)) (Fin 2)))
                  (Fin 0) (map snd distribution)
      in \<lparr>distribution = distribution, concentration = concentration\<rparr>)"

subsection \<open>The cooldown utilities (cooldownUtils)\<close>

record CooldownStatus =
  isActive :: bool
  startTime :: int
  endTime :: int
  amount :: int
  canWithdraw :: bool
  remainingSeconds :: int
  remainingFormatted :: string
  progress :: real

text \<open>\<^verbatim>\<open>Math.round\<close>: the nearest integer, a tie going up.\<close>

definition Math_round :: "real \<Rightarrow> real" where
  "Math_round x = of_int \<lfloor>x + 1 / 2\<rfloor>"

definition formatDuration :: "int \<Rightarrow> string" where
  "formatDuration seconds =
     (if seconds \<le> 0 then ''Ready''
      else
        (let days = seconds div 86400;
             hours = (seconds mod 86400) div 3600;
             minutes = (seconds mod 3600) div 60;
             secs = seconds mod 60;
             parts = (if days > 0 then [show_int days @ ''d''] else [])
                   @ (if hours > 0 then [show_int hours @ ''h''] else [])
                   @ (if minutes > 0 then [show_int minutes @ ''m''] else [])
                   @ (if secs > 0 \<and> days = 0 then [show_int secs @ ''s''] else []);
             joined = join '' '' parts
         in if joined \<noteq> [] then joined else ''0s''))"

text \<open>
  \<^verbatim>\<open>currentTimestamp || Math.floor(Date.now() / 1000)\<close>: the optional argument when it is
  given and truthy, else the clock. The reading \<open>date_now\<close> of \<^verbatim>\<open>Date.now()\<close>, in
  milliseconds, is an explicit argument of every function that reads the clock. A reading
  is a whole number of at most \<open>8.64e15\<close> in magnitude, for which the rounded quotient by
  1000 has the floor of the exact one.
\<close>

definition current_time :: "int \<Rightarrow> int option \<Rightarrow> int" where
  "current_time date_now currentTimestamp =
     (case currentTimestamp of
        Some t \<Rightarrow> if t \<noteq> 0 then t else date_now div 1000
      | None \<Rightarrow> date_now div 1000)"

text \<open>
  Timestamps of at most \<open>2 ^ 52\<close> in magnitude: they are doubles, and so are their
  differences, so that the three subtractions of \<^verbatim>\<open>calculateCooldownStatus\<close> are exact.
\<close>

definition safe_seconds :: "int \<Rightarrow> bool" where
  "safe_seconds t = (\<bar>t\<bar> \<le> 2 ^ 52)"

text \<open>
  The quotient \<^verbatim>\<open>elapsed / totalDuration\<close>, its product with 100, the product
  \<^verbatim>\<open>progress * 100\<close> and the quotient of its \<^verbatim>\<open>Math.round\<close> by 100 are each rounded to a
  double; \<^verbatim>\<open>Math.min\<close> and \<^verbatim>\<open>Math.round\<close> are exact.
\<close>

definition calculateCooldownStatus ::
  "int \<Rightarrow> int \<Rightarrow> int \<Rightarrow> int \<Rightarrow> int option \<Rightarrow> CooldownStatus" where
  "calculateCooldownStatus date_now cooldownStart cooldownEnd cooldownAmount currentTimestamp =
     (let now = current_time date_now currentTimestamp;
          isActive = cooldownStart > 0 \<and> cooldownAmount > 0;
          canWithdraw = isActive \<and> now \<ge> cooldownEnd;
          remainingSeconds = max 0 (cooldownEnd - now);
          totalDuration = cooldownEnd - cooldownStart;
          elapsed = now - cooldownStart;
          progress = (if totalDuration > 0
                      then min 100 (fl (fl (real_of_int elapsed / real_of_int totalDuration) * 100))
                      else 0)
      in \<lparr>isActive = isActive,
          startTime = cooldownStart,
          endTime = cooldownEnd,
          amount = cooldownAmount,
          canWithdraw = canWithdraw,
          remainingSeconds = remainingSeconds,
          remainingFormatted = formatDuration remainingSeconds,
          progress = fl (Math_round (fl (progress * 100)) / 100)\<rparr>)"

definition isCooldownComplete :: "int \<Rightarrow> int \<Rightarrow> int option \<Rightarrow> bool" where
  "isCooldownComplete date_now cooldownEnd currentTimestamp =
     (let now = current_time date_now currentTimestamp in now \<ge> cooldownEnd)"

text \<open>
  The values of the enumeration \<^verbatim>\<open>CooldownEvent\<close>. The object \<^verbatim>\<open>eventMap\<close> of
  \<^verbatim>\<open>parseCooldownEvent\<close> is an object literal with three own properties; a read under
  another name finds \<^verbatim>\<open>undefined\<close>, unless \<^verbatim>\<open>Object.prototype\<close> has a member of that
  name, which is then the value read (\<open>Inherited\<close>), and is truthy.
\<close>

datatype CooldownEvent = INITIATED | COMPLETED | CANCELLED | EXPIRED

datatype event_value = Event CooldownEvent | Inherited string

definition eventMap :: "string \<Rightarrow> event_value option" where
  "eventMap eventName =
     (if eventName = ''CooldownStarted'' then Some (Event INITIATED)
      else if eventName = ''CooldownCompleted'' then Some (Event COMPLETED)
      else if eventName = ''CooldownCancelled'' then Some (Event CANCELLED)
      else if eventName \<in> set Object_prototype_names then Some (Inherited eventName)
      else None)"

text \<open>
  The argument \<^verbatim>\<open>args\<close> of \<^verbatim>\<open>parseCooldownEvent\<close>, as the function reads it: \<^verbatim>\<open>args.user\<close>,
  the outcome of \<^verbatim>\<open>BigInt(args.amount)\<close>, which is an integer or an exception of the
  conversion, and the number \<^verbatim>\<open>Number(args.timestamp)\<close>. The fields of the result are
  \<^verbatim>\<open>event\<close>, \<^verbatim>\<open>user\<close>, \<^verbatim>\<open>amount\<close> and \<^verbatim>\<open>timestamp\<close>; the result \<^verbatim>\<open>null\<close> is \<open>None\<close>.
\<close>

datatype exception = SyntaxError | TypeError | RangeError

record EventArgs =
  arg_user :: string
  arg_amount :: "exception + int"
  arg_timestamp :: number

record ParsedEvent =
  ev_event :: event_value
  ev_user :: string
  ev_amount :: int
  ev_timestamp :: number

text \<open>A number is truthy unless it is 0 or \<open>NaN\<close>.\<close>

fun truthy :: "number \<Rightarrow> bool" where
  "truthy (Fin x) = (x \<noteq> 0)"
| "truthy PInf = True"
| "truthy NInf = True"
| "truthy NaN = False"

text \<open>
  The fields of the object literal are evaluated in order: an exception of the conversion
  of the amount leaves the function before the clock is read.
\<close>

definition parseCooldownEvent ::
  "int \<Rightarrow> string \<Rightarrow> EventArgs \<Rightarrow> exception + ParsedEvent option" where
  "parseCooldownEvent date_now eventName args =
     (case eventMap eventName of
        None \<Rightarrow> Inr None
      | Some event \<Rightarrow>
          (case arg_amount args of
             Inl e \<Rightarrow> Inl e
           | Inr n \<Rightarrow>
               Inr (Some \<lparr>ev_event = event,
                          ev_user = arg_user args,
                          ev_amount = n,
                          ev_timestamp =
                            (if truthy (arg_timestamp args) then arg_timestamp args
                             else Fin (real_of_int (date_now div 1000)))\<rparr>)))"

text \<open>
  An element of the argument of \<^verbatim>\<open>batchCooldownStatus\<close>, with the fields \<^verbatim>\<open>user\<close>,
  \<^verbatim>\<open>startTime\<close>, \<^verbatim>\<open>endTime\<close> and \<^verbatim>\<open>amount\<close>. The result is a \<^verbatim>\<open>Map\<close>, an association list
  in order of insertion: \<^verbatim>\<open>set\<close> replaces the value of a key the map has and appends a new
  key, as \<open>obj_set\<close> does. Every element makes its own call of
  \<^verbatim>\<open>calculateCooldownStatus\<close>, without a current time, and so its own reading of the clock:
  \<open>clock i\<close> is the reading at element \<open>i\<close>.
\<close>

record Cooldown =
  cd_user :: string
  cd_startTime :: int
  cd_endTime :: int
  cd_amount :: int

fun batchCooldownStatus_from ::
  "(nat \<Rightarrow> int) \<Rightarrow> nat \<Rightarrow> Cooldown list \<Rightarrow> (string \<times> CooldownStatus) list
     \<Rightarrow> (string \<times> CooldownStatus) list" where
  "batchCooldownStatus_from clock i [] results = results"
| "batchCooldownStatus_from clock i (cooldown # cooldowns) results =
     batchCooldownStatus_from clock (i + 1) cooldowns
       (obj_set results (cd_user cooldown)
          (calculateCooldownStatus (clock i) (cd_startTime cooldown) (cd_endTime cooldown)
             (cd_amount cooldown) None))"

definition batchCooldownStatus ::
  "(nat \<Rightarrow> int) \<Rightarrow> Cooldown list \<Rightarrow> (string \<times> CooldownStatus) list" where
  "batchCooldownStatus clock cooldowns = batchCooldownStatus_from clock 0 cooldowns []"

subsection \<open>The points utilities (pointsUtils)\<close>

text \<open>\<^verbatim>\<open>MULTIPLIER_TIERS\<close>: an object with one multiplier per tier name.\<close>

record MultiplierTiers =
  base :: real
  bronze :: real
  silver :: real
  gold :: real
  platinum :: real
  diamond :: real

definition MULTIPLIER_TIERS :: MultiplierTiers where
  "MULTIPLIER_TIERS =
     \<lparr>base = 1, bronze = 5 / 4, silver = 3 / 2, gold = 2, platinum = 3, diamond = 5\<rparr>"

text \<open>An entry of the local array \<^verbatim>\<open>thresholds\<close> of \<^verbatim>\<open>getMultiplierTier\<close>.\<close>

record Threshold =
  th_tier :: string
  th_sats :: real
  th_multiplier :: real

definition thresholds :: "Threshold list" where
  "thresholds =
     [\<lparr>th_tier = ''diamond'', th_sats = 1000000, th_multiplier = diamond MULTIPLIER_TIERS\<rparr>,
      \<lparr>th_tier = ''platinum'', th_sats = 500000, th_multiplier = platinum MULTIPLIER_TIERS\<rparr>,
      \<lparr>th_tier = ''gold'', th_sats = 100000, th_multiplier = gold MULTIPLIER_TIERS\<rparr>,
      \<lparr>th_tier = ''silver'', th_sats = 25000, th_multiplier = silver MULTIPLIER_TIERS\<rparr>,
      \<lparr>th_tier = ''bronze'', th_sats = 5000, th_multiplier = bronze MULTIPLIER_TIERS\<rparr>,
      \<lparr>th_tier = ''base'', th_sats = 0, th_multiplier = base MULTIPLIER_TIERS\<rparr>]"

text \<open>The result object; the optional fields are absent (\<open>None\<close>) until assigned.\<close>

record TierInfo =
  tier :: string
  multiplier :: real
  nextTier :: "string option"
  satsToNextTier :: "real option"

text \<open>
  The \<^verbatim>\<open>for\<close> loop of \<^verbatim>\<open>getMultiplierTier\<close> from index \<open>i\<close> on; the return after the
  loop is the last branch.
\<close>

function getMultiplierTier_from :: "nat \<Rightarrow> real \<Rightarrow> TierInfo" where
  "getMultiplierTier_from i totalSats =
     (if i < length thresholds then
        (if totalSats \<ge> th_sats (thresholds ! i) then
           (let result = \<lparr>tier = th_tier (thresholds ! i),
                          multiplier = th_multiplier (thresholds ! i),
                          nextTier = None, satsToNextTier = None\<rparr>
            in if i > 0 then
                 result\<lparr>nextTier := Some (th_tier (thresholds ! (i - 1))),
                        satsToNextTier := Some (th_sats (thresholds ! (i - 1)) - totalSats)\<rparr>
               else result)
         else getMultiplierTier_from (i + 1) totalSats)
      else \<lparr>tier = ''base'', multiplier = 1, nextTier = None, satsToNextTier = None\<rparr>)"
  by pat_completeness auto
termination
  by (relation "measure (\<lambda>(i, totalSats). length thresholds - i)") auto

definition getMultiplierTier :: "real \<Rightarrow> TierInfo" where
  "getMultiplierTier totalSats = getMultiplierTier_from 0 totalSats"

text \<open>
  The population of \<^verbatim>\<open>calculatePercentile\<close> holds finite numbers, on which the comparison
  \<^verbatim>\<open>(a, b) => a - b\<close> sorts in ascending order.
\<close>

definition calculatePercentile :: "real \<Rightarrow> real list \<Rightarrow> error + number" where
  "calculatePercentile userSats allUserSats =
     (let sorted = sort allUserSats;
          rank = length (filter (\<lambda>s. s < userSats) sorted)
      in Inr (js_mul (js_div (Fin (real rank)) (Fin (real (length sorted)))) (Fin 100)))"

record Projection =
  projectedSats :: real
  projectedTier :: string
  projectedMultiplier :: real

text \<open>
  The \<^verbatim>\<open>for\<close> loop of \<^verbatim>\<open>projectSatsEarnings\<close>, with the running balance \<open>sats\<close> (the local
  \<^verbatim>\<open>projectedSats\<close>): one step for every \<open>i = 0, 1, \<dots>\<close> below \<open>days\<close>.
\<close>

function projectSatsEarnings_loop :: "nat \<Rightarrow> real \<Rightarrow> real \<Rightarrow> real \<Rightarrow> real" where
  "projectSatsEarnings_loop i days dailyEarningRate sats =
     (if real i < days then
        projectSatsEarnings_loop (i + 1) days dailyEarningRate
          (sats + dailyEarningRate * multiplier (getMultiplierTier sats))
      else sats)"
  by pat_completeness auto
termination
  by (relation "measure (\<lambda>(i, days, r, s). nat \<lceil>days\<rceil> - i)") (auto, linarith)

definition projectSatsEarnings :: "real \<Rightarrow> real \<Rightarrow> real \<Rightarrow> bool \<Rightarrow> Projection" where
  "projectSatsEarnings currentBalance dailyEarningRate days includeCompounding =
     (let sats =
            (if includeCompounding then
               projectSatsEarnings_loop 0 days dailyEarningRate currentBalance
             else currentBalance + dailyEarningRate * days);
          tierInfo = getMultiplierTier sats
      in \<lparr>projectedSats = sats,
          projectedTier = tier tierInfo,
          projectedMultiplier = multiplier tierInfo\<rparr>)"

text \<open>
  \<^verbatim>\<open>getSeasonTimeRemaining\<close> takes the end date only and reads the clock itself
  (\<^verbatim>\<open>new Date()\<close>). The fields of its result are \<^verbatim>\<open>days\<close>, \<^verbatim>\<open>hours\<close>, \<^verbatim>\<open>minutes\<close> and
  \<^verbatim>\<open>formatted\<close>.
\<close>

record SeasonTime =
  st_days :: int
  st_hours :: int
  st_minutes :: int
  st_formatted :: string

definition getSeasonTimeRemaining :: "int \<Rightarrow> int \<Rightarrow> SeasonTime" where
  "getSeasonTimeRemaining date_now endDate =
     (let now = date_now;
          diff = endDate - now
      in if diff \<le> 0 then
           \<lparr>st_days = 0, st_hours = 0, st_minutes = 0, st_formatted = ''Season Ended''\<rparr>
         else
           (let days = diff div (1000 * 60 * 60 * 24);
                hours = (diff mod (1000 * 60 * 60 * 24)) div (1000 * 60 * 60);
                minutes = (diff mod (1000 * 60 * 60)) div (1000 * 60);
                formatted = [];
                formatted = (if days > 0 then formatted @ show_int days @ ''d '' else formatted);
                formatted = (if hours > 0 \<or> days > 0 then formatted @ show_int hours @ ''h ''
                             else formatted);
                formatted = formatted @ show_int minutes @ ''m''
            in \<lparr>st_days = days, st_hours = hours, st_minutes = minutes,
                st_formatted = trim formatted\<rparr>))"

section \<open>The same arithmetic in doubles\<close>

text \<open>
  Three functions are given a second time with each operation rounded to a double; the
  first argument of the two rate conversions is the error of their call of \<^verbatim>\<open>Math.pow\<close>.
\<close>

definition aprToApy_double :: "real \<Rightarrow> real \<Rightarrow> real \<Rightarrow> number" where
  "aprToApy_double err apr compoundingPeriods =
     d_sub (Math_pow err (d_add (Fin 1) (d_div (Fin apr) (Fin compoundingPeriods)))
                         (Fin compoundingPeriods))
           (Fin 1)"

definition apyToApr_double :: "real \<Rightarrow> real \<Rightarrow> real \<Rightarrow> number" where
  "apyToApr_double err apy compoundingPeriods =
     d_mul (Fin compoundingPeriods)
       (d_sub (Math_pow err (d_add (Fin 1) (Fin apy))
                            (d_div (Fin 1) (Fin compoundingPeriods)))
              (Fin 1))"

function projectSatsEarnings_double_loop :: "nat \<Rightarrow> real \<Rightarrow> real \<Rightarrow> real \<Rightarrow> real" where
  "projectSatsEarnings_double_loop i days dailyEarningRate sats =
     (if real i < days then
        projectSatsEarnings_double_loop (i + 1) days dailyEarningRate
          (fl (sats + fl (dailyEarningRate * multiplier (getMultiplierTier sats))))
      else sats)"
  by pat_completeness auto
termination
  by (relation "measure (\<lambda>(i, days, r, s). nat \<lceil>days\<rceil> - i)") (auto, linarith)

definition projectSatsEarnings_double :: "real \<Rightarrow> real \<Rightarrow> real \<Rightarrow> bool \<Rightarrow> Projection" where
  "projectSatsEarnings_double currentBalance dailyEarningRate days includeCompounding =
     (let sats =
            (if includeCompounding then
               projectSatsEarnings_double_loop 0 days dailyEarningRate currentBalance
             else fl (currentBalance + fl (dailyEarningRate * days)));
          tierInfo = getMultiplierTier sats
      in \<lparr>projectedSats = sats,
          projectedTier = tier tierInfo,
          projectedMultiplier = multiplier tierInfo\<rparr>)"

section \<open>The specification's side\<close>

text \<open>
  The definitions of this section follow the words of the specification; the theorems
  compare them with the functions above.
\<close>

text \<open>
  The fixed descending table of tiers: name, threshold and multiplier; \<open>tier_at i x\<close> is
  the answer the specification gives for a balance \<open>x\<close> whose first met threshold is entry
  \<open>i\<close>: the next tier is one rank up, and both optional fields are absent at rank 0.
\<close>

definition tier_table :: "(string \<times> real \<times> real) list" where
  "tier_table =
     [(''diamond'', 1000000, 5), (''platinum'', 500000, 3), (''gold'', 100000, 2),
      (''silver'', 25000, 3 / 2), (''bronze'', 5000, 5 / 4), (''base'', 0, 1)]"

definition tt_name :: "nat \<Rightarrow> string" where
  "tt_name i = fst (tier_table ! i)"

definition tt_sats :: "nat \<Rightarrow> real" where
  "tt_sats i = fst (snd (tier_table ! i))"

definition tt_mult :: "nat \<Rightarrow> real" where
  "tt_mult i = snd (snd (tier_table ! i))"

definition tier_at :: "nat \<Rightarrow> real \<Rightarrow> TierInfo" where
  "tier_at i x =
     \<lparr>tier = tt_name i, multiplier = tt_mult i,
      nextTier = (if i = 0 then None else Some (tt_name (i - 1))),
      satsToNextTier = (if i = 0 then None else Some (tt_sats (i - 1) - x))\<rparr>"

text \<open>\<open>clamp x lo hi\<close>, and the progress of a cooldown as the specification words it.\<close>

definition clamp :: "real \<Rightarrow> real \<Rightarrow> real \<Rightarrow> real" where
  "clamp x lo hi = max lo (min hi x)"

definition progress_spec :: "int \<Rightarrow> int \<Rightarrow> int \<Rightarrow> real" where
  "progress_spec start end now =
     (if end - start = 0 then 0
      else clamp (real_of_int (now - start) / real_of_int (end - start) * 100) 0 100)"

text \<open>
  The total absolute exposure of a list of positions, the part of it held at one
  exchange, that exchange's fractional share, and the sum of the squared shares over the
  distinct exchanges.
\<close>

definition total_exposure :: "Position list \<Rightarrow> real" where
  "total_exposure ps = (\<Sum>p\<leftarrow>ps. \<bar>pos_value p\<bar>)"

definition exchange_exposure :: "Position list \<Rightarrow> string \<Rightarrow> real" where
  "exchange_exposure ps k = (\<Sum>p\<leftarrow>filter (\<lambda>p. exchange p = k) ps. \<bar>pos_value p\<bar>)"

definition exposure_share :: "Position list \<Rightarrow> string \<Rightarrow> real" where
  "exposure_share ps k = exchange_exposure ps k / total_exposure ps"

definition share_squares :: "Position list \<Rightarrow> real" where
  "share_squares ps = (\<Sum>k\<in>set (map exchange ps). (exposure_share ps k)\<^sup>2)"

text \<open>No exchange name is the name of a member of \<^verbatim>\<open>Object.prototype\<close>.\<close>

definition plain_names :: "Position list \<Rightarrow> bool" where
  "plain_names ps = (\<forall>p\<in>set ps. exchange p \<notin> set Object_prototype_names)"

subsection \<open>Auxiliary notions of the proofs\<close>

text \<open>
  The number a property holds, objects that hold numbers only, the number held under a
  name (0 when there is none), and the loop of \<^verbatim>\<open>calculateCounterpartyRisk\<close> that fills
  the object, from any starting object.
\<close>

fun prop_num :: "property \<Rightarrow> real" where
  "prop_num (PNum v) = v"
| "prop_num PStr = 0"

definition all_nums :: "(string \<times> property) list \<Rightarrow> bool" where
  "all_nums d = (\<forall>kv\<in>set d. \<exists>x. snd kv = PNum x)"

definition held :: "(string \<times> property) list \<Rightarrow> string \<Rightarrow> real" where
  "held d k = (case map_of d k of Some v \<Rightarrow> prop_num v | None \<Rightarrow> 0)"

definition fill ::
  "real \<Rightarrow> (string \<times> property) list \<Rightarrow> Position list \<Rightarrow> (string \<times> property) list" where
  "fill t d ps =
     foldl (\<lambda>d pos.
              (let percent = (if t > 0 then \<bar>pos_value pos\<bar> / t * 100 else 0)
               in add_percent d (exchange pos) percent))
           d ps"

text \<open>
  For the examples: a clock that reads \<open>d\<close> at the first call and \<open>step\<close> milliseconds more
  at each further one, the arguments of an event of user \<open>0xabc\<close> with amount 5 and a given
  value of \<^verbatim>\<open>Number(args.timestamp)\<close>, and two cooldowns from 1000 to 2000.
\<close>

definition ticking_clock :: "int \<Rightarrow> int \<Rightarrow> nat \<Rightarrow> int" where
  "ticking_clock d step i = d + step * int i"

definition stamped_args :: "number \<Rightarrow> EventArgs" where
  "stamped_args t = \<lparr>arg_user = ''0xabc'', arg_amount = Inr 5, arg_timestamp = t\<rparr>"

definition two_cooldowns :: "Cooldown list" where
  "two_cooldowns =
     [\<lparr>cd_user = ''0xabc'', cd_startTime = 1000, cd_endTime = 2000, cd_amount = 1\<rparr>,
      \<lparr>cd_user = ''0xdef'', cd_startTime = 1000, cd_endTime = 2000, cd_amount = 2\<rparr>]"

section \<open>Doubles: evaluation and the error of rounding\<close>

lemma binade_from_numeral [simp]:
  "binade_from (numeral k) e a =
     (if 2 \<le> a then binade_from (pred_numeral k) (e + 1) (a / 2)
      else if a < 1 then binade_from (pred_numeral k) (e - 1) (a * 2)
      else e)"
  by (simp add: numeral_eq_Suc)

lemmas double_simps =
  fl_def binade_def round_half_even_def power_int_minus d_add_def d_sub_def d_mul_def
  d_div_def js_sub_def

text \<open>The literals 0.1 and 0.3 as doubles, and the sum of 0.1 and 0.2, which is not 0.3.\<close>

lemma fl_examples:
  "fl (1 / 10) = 3602879701896397 / 36028797018963968"
  "fl (3 / 10) = 5404319552844595 / 18014398509481984"
  "fl (fl (1 / 10) + fl (2 / 10)) = 5404319552844596 / 18014398509481984"
  by (simp_all add: double_simps)

text \<open>
  Rounding to a double keeps a number on its side of every whole number, as long as the
  number is below \<open>2 ^ 53\<close> in magnitude, where the doubles are at most 1 apart.
\<close>

lemma round_half_even_le: "y \<le> of_int N \<Longrightarrow> round_half_even y \<le> N"
  unfolding round_half_even_def Let_def
  by (auto simp: floor_le_iff le_floor_iff)

lemma round_half_even_ge: "of_int N \<le> y \<Longrightarrow> N \<le> round_half_even y"
proof -
  assume "of_int N \<le> y"
  then have "N \<le> \<lfloor>y\<rfloor>" by (simp add: le_floor_iff)
  then show ?thesis
    unfolding round_half_even_def Let_def by auto
qed

lemma binade_from_le: "a < 2 ^ (k + 1) \<Longrightarrow> binade_from n e a \<le> e + int k"
proof (induction n arbitrary: e a k)
  case 0
  then show ?case by simp
next
  case (Suc n)
  show ?case
  proof (cases "2 \<le> a")
    case True
    then have "k \<noteq> 0" using Suc.prems by (cases k) auto
    then obtain j where j: "k = Suc j" by (cases k) auto
    have "a / 2 < 2 ^ (j + 1)" using Suc.prems j by simp
    from Suc.IH[OF this, of "e + 1"] show ?thesis using True j by simp
  next
    case False
    show ?thesis
    proof (cases "a < 1")
      case True
      have "a * 2 < 2 ^ (k + 1)"
      proof -
        have "a * 2 < 2" using True by simp
        also have "(2::real) \<le> 2 ^ (k + 1)" by (simp add: self_le_power)
        finally show ?thesis .
      qed
      from Suc.IH[OF this, of "e - 1"] show ?thesis using True False by simp
    next
      case F2: False
      then show ?thesis using False by simp
    qed
  qed
qed

lemma binade_le: "\<bar>x\<bar> < 2 ^ (k + 1) \<Longrightarrow> binade x \<le> int k"
  unfolding binade_def using binade_from_le[of "\<bar>x\<bar>" k 1100 0] by simp

lemma fl_grid:
  assumes "binade x \<le> 52"
  shows "fl x = of_int (round_half_even (x * 2 ^ nat (52 - binade x))) / 2 ^ nat (52 - binade x)"
proof (cases "x = 0")
  case True
  then show ?thesis by (simp add: fl_def round_half_even_def)
next
  case False
  let ?m = "nat (52 - binade x)"
  have a: "(2::real) powi (52 - binade x) = 2 ^ ?m"
    using assms by (simp add: power_int_def)
  have "(2::real) powi (binade x - 52) = 2 powi (- (52 - binade x))"
    by simp
  also have "\<dots> = inverse (2 powi (52 - binade x))"
    by (simp only: power_int_minus)
  finally have b: "(2::real) powi (binade x - 52) = 1 / 2 ^ ?m"
    unfolding a by (simp add: divide_inverse)
  show ?thesis using False unfolding fl_def a b by simp
qed

lemma fl_le_of_int:
  assumes "x \<le> of_int N" and "\<bar>x\<bar> < 2 ^ 53"
  shows "fl x \<le> of_int N"
proof -
  have b: "binade x \<le> 52" using binade_le[of x 52] assms(2) by simp
  let ?m = "nat (52 - binade x)"
  have "x * 2 ^ ?m \<le> of_int (N * 2 ^ ?m)"
    using assms(1) by simp
  then have "round_half_even (x * 2 ^ ?m) \<le> N * 2 ^ ?m"
    by (rule round_half_even_le)
  then have "real_of_int (round_half_even (x * 2 ^ ?m)) \<le> real_of_int (N * 2 ^ ?m)"
    by (simp only: of_int_le_iff)
  then show ?thesis
    unfolding fl_grid[OF b] by (simp add: field_simps)
qed

lemma fl_ge_of_int:
  assumes "of_int N \<le> x" and "\<bar>x\<bar> < 2 ^ 53"
  shows "of_int N \<le> fl x"
proof -
  have b: "binade x \<le> 52" using binade_le[of x 52] assms(2) by simp
  let ?m = "nat (52 - binade x)"
  have "of_int (N * 2 ^ ?m) \<le> x * 2 ^ ?m"
    using assms(1) by simp
  then have "N * 2 ^ ?m \<le> round_half_even (x * 2 ^ ?m)"
    by (rule round_half_even_ge)
  then have "real_of_int (N * 2 ^ ?m) \<le> real_of_int (round_half_even (x * 2 ^ ?m))"
    by (simp only: of_int_le_iff)
  then show ?thesis
    unfolding fl_grid[OF b] by (simp add: field_simps)
qed

lemma fl_nonneg: "0 \<le> x \<Longrightarrow> 0 \<le> fl x"
  unfolding fl_def using round_half_even_ge[of 0 "x * 2 powi (52 - binade x)"]
  by simp

text \<open>
  The error of rounding: half a unit in the last place, which is at most \<open>2 ^ -53\<close> of
  the number itself as long as the exponent is found within 1100 steps, and at most
  \<open>2 ^ -1153\<close> below that.
\<close>

lemma round_half_even_err: "\<bar>of_int (round_half_even y) - y\<bar> \<le> 1 / 2"
  unfolding round_half_even_def Let_def
  by (auto simp: abs_if) linarith+

lemma two_powi_Suc: "(2::real) powi (k + 1) = 2 * 2 powi k"
  by (simp add: power_int_add)

lemma two_powi_pred: "(2::real) powi (k - 1) = 2 powi k / 2"
  by (simp add: power_int_diff)

lemma binade_from_bracket:
  "2 powi (- int n) \<le> a \<Longrightarrow> a < 2 ^ (n + 1) \<Longrightarrow>
   2 powi (binade_from n e a - e) \<le> a \<and> a < 2 powi (binade_from n e a - e + 1)"
proof (induction n arbitrary: e a)
  case 0
  then show ?case by simp
next
  case (Suc n)
  show ?case
  proof (cases "2 \<le> a")
    case True
    have "2 powi (- int n) \<le> (1::real)"
      by (simp add: power_int_minus inverse_le_1_iff)
    then have l: "2 powi (- int n) \<le> a / 2" using True by simp
    have u: "a / 2 < 2 ^ (n + 1)" using Suc.prems by simp
    from Suc.IH[OF l u, of "e + 1"]
    have "2 powi (binade_from n (e + 1) (a / 2) - e - 1) \<le> a / 2"
      and "a / 2 < 2 powi (binade_from n (e + 1) (a / 2) - e - 1 + 1)"
      by (simp_all add: algebra_simps)
    then show ?thesis
      using True two_powi_pred[of "binade_from n (e + 1) (a / 2) - e"]
        two_powi_Suc[of "binade_from n (e + 1) (a / 2) - e"]
      by (simp add: algebra_simps)
  next
    case False
    show ?thesis
    proof (cases "a < 1")
      case True
      have "- int (Suc n) = - int n - 1" by simp
      then have "(2::real) powi (- int (Suc n)) = 2 powi (- int n) / 2"
        by (simp only: two_powi_pred)
      then have l: "2 powi (- int n) \<le> a * 2" using Suc.prems(1) by simp
      have "a * 2 < 2" using True by simp
      also have "(2::real) \<le> 2 ^ (n + 1)" by (simp add: self_le_power)
      finally have u: "a * 2 < 2 ^ (n + 1)" .
      from Suc.IH[OF l u, of "e - 1"]
      have "2 powi (binade_from n (e - 1) (a * 2) - e + 1) \<le> a * 2"
        and "a * 2 < 2 powi (binade_from n (e - 1) (a * 2) - e + 1 + 1)"
        by (simp_all add: algebra_simps)
      then show ?thesis
        using True False two_powi_Suc[of "binade_from n (e - 1) (a * 2) - e"]
          two_powi_Suc[of "binade_from n (e - 1) (a * 2) - e + 1"]
        by (simp add: algebra_simps)
    next
      case F2: False
      then show ?thesis using False by simp
    qed
  qed
qed

lemma binade_bracket:
  assumes "2 powi (- 1100) \<le> \<bar>x\<bar>" and "\<bar>x\<bar> < 2 ^ 1101"
  shows "2 powi (binade x) \<le> \<bar>x\<bar>" and "\<bar>x\<bar> < 2 powi (binade x + 1)"
  using binade_from_bracket[of 1100 "\<bar>x\<bar>" 0] assms
  by (simp_all add: binade_def del: binade_from_numeral)

lemma binade_from_bottom:
  "0 < a \<Longrightarrow> a < 2 powi (- int n) \<Longrightarrow> binade_from n e a = e - int n"
proof (induction n arbitrary: e a)
  case 0
  then show ?case by simp
next
  case (Suc n)
  have "- int (Suc n) = - int n - 1" by simp
  then have h: "(2::real) powi (- int (Suc n)) = 2 powi (- int n) / 2"
    by (simp only: two_powi_pred)
  have "2 powi (- int n) \<le> (1::real)"
    by (simp add: power_int_minus inverse_le_1_iff)
  then have a1: "a < 1" using Suc.prems(2) h by simp
  have "a * 2 < 2 powi (- int n)" using Suc.prems(2) h by simp
  moreover have "0 < a * 2" using Suc.prems(1) by simp
  ultimately have "binade_from n (e - 1) (a * 2) = e - 1 - int n"
    by (rule Suc.IH[rotated])
  then show ?case using a1 by simp
qed

lemma fl_diff:
  assumes "x \<noteq> 0"
  shows "\<bar>fl x - x\<bar> \<le> 2 powi (binade x - 53)"
proof -
  let ?e = "binade x"
  let ?y = "x * 2 powi (52 - ?e)"
  have p: "(2::real) powi (52 - ?e) * 2 powi (?e - 52) = 1"
    by (simp flip: power_int_add)
  have "fl x - x = (of_int (round_half_even ?y) - ?y) * 2 powi (?e - 52)"
    using assms p by (simp add: fl_def algebra_simps)
  then have "\<bar>fl x - x\<bar> = \<bar>of_int (round_half_even ?y) - ?y\<bar> * 2 powi (?e - 52)"
    by (simp add: abs_mult)
  also have "\<dots> \<le> 1 / 2 * 2 powi (?e - 52)"
    by (intro mult_right_mono round_half_even_err) simp
  also have "\<dots> = 2 powi (?e - 53)"
    using two_powi_pred[of "?e - 52"] by simp
  finally show ?thesis .
qed

lemma fl_rel_err:
  assumes "2 powi (- 1100) \<le> \<bar>x\<bar>" and "\<bar>x\<bar> < 2 ^ 1101"
  shows "\<bar>fl x - x\<bar> \<le> \<bar>x\<bar> / 2 ^ 53"
proof -
  have "x \<noteq> 0" using assms(1) by auto
  then have "\<bar>fl x - x\<bar> \<le> 2 powi (binade x - 53)"
    by (rule fl_diff)
  also have "\<dots> = 2 powi (binade x) / 2 ^ 53"
    by (simp add: power_int_diff)
  also have "\<dots> \<le> \<bar>x\<bar> / 2 ^ 53"
    using binade_bracket(1)[OF assms] by (simp add: divide_right_mono)
  finally show ?thesis .
qed

lemma fl_abs_err:
  assumes "\<bar>x\<bar> < 2 ^ 1101"
  shows "\<bar>fl x - x\<bar> \<le> (\<bar>x\<bar> + 1 / 1000) / 2 ^ 53"
proof (cases "2 powi (- 1100) \<le> \<bar>x\<bar>")
  case True
  then have "\<bar>fl x - x\<bar> \<le> \<bar>x\<bar> / 2 ^ 53"
    using assms by (rule fl_rel_err)
  also have "\<dots> \<le> (\<bar>x\<bar> + 1 / 1000) / 2 ^ 53"
    by (simp add: divide_right_mono)
  finally show ?thesis .
next
  case False
  show ?thesis
  proof (cases "x = 0")
    case True
    then show ?thesis by (simp add: fl_def)
  next
    case F: False
    have "binade x = - 1100"
      using binade_from_bottom[of "\<bar>x\<bar>" 1100 0] F False
      by (simp add: binade_def del: binade_from_numeral)
    then have "\<bar>fl x - x\<bar> \<le> 2 powi (- 1153)"
      using fl_diff[OF F] by simp
    also have "\<dots> \<le> (1 / 1000) / 2 ^ 53"
      by (simp add: power_int_minus field_simps)
    also have "\<dots> \<le> (\<bar>x\<bar> + 1 / 1000) / 2 ^ 53"
      by (simp add: divide_right_mono)
    finally show ?thesis .
  qed
qed

lemma fl_rel_pos:
  assumes "1 / 2 ^ 1000 \<le> p" and "p \<le> 2 ^ 1000"
  shows "\<bar>fl p - p\<bar> \<le> p / 2 ^ 53"
proof -
  have "(2::real) powi (- 1100) \<le> 1 / 2 ^ 1000"
    by (simp add: power_int_minus field_simps)
  then have "2 powi (- 1100) \<le> \<bar>p\<bar>" using assms(1) by linarith
  moreover have "\<bar>p\<bar> < 2 ^ 1101" using assms by simp
  ultimately have "\<bar>fl p - p\<bar> \<le> \<bar>p\<bar> / 2 ^ 53" by (rule fl_rel_err)
  moreover have "0 \<le> p" using assms(1) by (rule order_trans[rotated]) simp
  ultimately show ?thesis by simp
qed

lemma fl_err_le:
  assumes "\<bar>x\<bar> \<le> B" and "B \<le> 2 ^ 1000"
  shows "\<bar>fl x - x\<bar> \<le> (B + 1 / 1000) / 2 ^ 53"
proof -
  have "\<bar>x\<bar> < 2 ^ 1101" using assms by simp
  then have "\<bar>fl x - x\<bar> \<le> (\<bar>x\<bar> + 1 / 1000) / 2 ^ 53" by (rule fl_abs_err)
  also have "\<dots> \<le> (B + 1 / 1000) / 2 ^ 53"
    using assms(1) by (simp add: divide_right_mono)
  finally show ?thesis .
qed

section \<open>pointsUtils: tiers, percentile, projection\<close>

lemma getMultiplierTier_cases:
  "getMultiplierTier x =
    (if 1000000 \<le> x then
       \<lparr>tier = ''diamond'', multiplier = 5, nextTier = None, satsToNextTier = None\<rparr>
     else if 500000 \<le> x then
       \<lparr>tier = ''platinum'', multiplier = 3, nextTier = Some ''diamond'',
        satsToNextTier = Some (1000000 - x)\<rparr>
     else if 100000 \<le> x then
       \<lparr>tier = ''gold'', multiplier = 2, nextTier = Some ''platinum'',
        satsToNextTier = Some (500000 - x)\<rparr>
     else if 25000 \<le> x then
       \<lparr>tier = ''silver'', multiplier = 3 / 2, nextTier = Some ''gold'',
        satsToNextTier = Some (100000 - x)\<rparr>
     else if 5000 \<le> x then
       \<lparr>tier = ''bronze'', multiplier = 5 / 4, nextTier = Some ''silver'',
        satsToNextTier = Some (25000 - x)\<rparr>
     else if 0 \<le> x then
       \<lparr>tier = ''base'', multiplier = 1, nextTier = Some ''bronze'',
        satsToNextTier = Some (5000 - x)\<rparr>
     else \<lparr>tier = ''base'', multiplier = 1, nextTier = None, satsToNextTier = None\<rparr>)"
  unfolding getMultiplierTier_def
  by (simp add: thresholds_def MULTIPLIER_TIERS_def Let_def)

lemma all_less_Suc: "(\<forall>j<Suc i. P j) = ((\<forall>j<i. P j) \<and> P i)"
  using less_Suc_eq by auto

lemmas tier_table_simps =
  tier_at_def tt_name_def tt_sats_def tt_mult_def tier_table_def all_less_Suc

lemma getMultiplierTier_index:
  assumes "0 \<le> x"
  shows "\<exists>i<length tier_table.
           (\<forall>j<i. x < tt_sats j) \<and> tt_sats i \<le> x \<and> getMultiplierTier x = tier_at i x"
proof -
  consider "1000000 \<le> x" | "500000 \<le> x" "x < 1000000" | "100000 \<le> x" "x < 500000"
    | "25000 \<le> x" "x < 100000" | "5000 \<le> x" "x < 25000" | "x < 5000"
    by linarith
  then show ?thesis
  proof cases
    case 1
    then have "getMultiplierTier x = tier_at 0 x" "tt_sats 0 \<le> x"
      by (simp_all add: getMultiplierTier_cases tier_table_simps)
    then show ?thesis by (intro exI[of _ 0]) (simp add: tier_table_def)
  next
    case 2
    then have "getMultiplierTier x = tier_at 1 x" "tt_sats 1 \<le> x" "x < tt_sats 0"
      by (simp_all add: getMultiplierTier_cases tier_table_simps)
    then show ?thesis by (intro exI[of _ 1]) (simp add: tier_table_def)
  next
    case 3
    then have "getMultiplierTier x = tier_at 2 x" "tt_sats 2 \<le> x" "\<forall>j<2. x < tt_sats j"
      by (simp_all add: getMultiplierTier_cases tier_table_simps numeral_2_eq_2)
    then show ?thesis by (intro exI[of _ 2]) (simp add: tier_table_def)
  next
    case 4
    then have "getMultiplierTier x = tier_at 3 x" "tt_sats 3 \<le> x" "\<forall>j<3. x < tt_sats j"
      by (simp_all add: getMultiplierTier_cases tier_table_simps numeral_3_eq_3)
    then show ?thesis by (intro exI[of _ 3]) (simp add: tier_table_def)
  next
    case 5
    then have "getMultiplierTier x = tier_at 4 x" "tt_sats 4 \<le> x" "\<forall>j<4. x < tt_sats j"
      by (simp_all add: getMultiplierTier_cases tier_table_simps eval_nat_numeral)
    then show ?thesis by (intro exI[of _ 4]) (simp add: tier_table_def)
  next
    case 6
    with assms
    have "getMultiplierTier x = tier_at 5 x" "tt_sats 5 \<le> x" "\<forall>j<5. x < tt_sats j"
      by (simp_all add: getMultiplierTier_cases tier_table_simps eval_nat_numeral)
    then show ?thesis by (intro exI[of _ 5]) (simp add: tier_table_def)
  qed
qed

text \<open>
  Claim C5. For every \<open>totalSats \<ge> 0\<close>, \<^verbatim>\<open>getMultiplierTier\<close> returns the first entry of
  the descending table (diamond 1,000,000 and 5.0; platinum 500,000 and 3.0; gold 100,000
  and 2.0; silver 25,000 and 1.5; bronze 5,000 and 1.25; base 0 and 1.0) whose threshold
  the balance meets or exceeds. \<^verbatim>\<open>nextTier\<close> is the tier one rank up and
  \<^verbatim>\<open>satsToNextTier\<close> the next threshold minus the balance, and both are absent exactly
  when the tier is diamond. In particular the tier at 100000 is gold, and at 4000 the
  distance to the next tier is 1000.
\<close>

theorem getMultiplierTier_first_threshold:
  assumes "0 \<le> totalSats"
  shows "(\<exists>i<length tier_table.
            (\<forall>j<i. totalSats < tt_sats j) \<and> tt_sats i \<le> totalSats \<and>
            getMultiplierTier totalSats = tier_at i totalSats)
       \<and> (nextTier (getMultiplierTier totalSats) = None
            \<longleftrightarrow> tier (getMultiplierTier totalSats) = ''diamond'')
       \<and> (satsToNextTier (getMultiplierTier totalSats) = None
            \<longleftrightarrow> tier (getMultiplierTier totalSats) = ''diamond'')
       \<and> tier (getMultiplierTier 100000) = ''gold''
       \<and> satsToNextTier (getMultiplierTier 4000) = Some 1000"
proof -
  have "nextTier (getMultiplierTier totalSats) = None
          \<longleftrightarrow> tier (getMultiplierTier totalSats) = ''diamond''"
    and "satsToNextTier (getMultiplierTier totalSats) = None
          \<longleftrightarrow> tier (getMultiplierTier totalSats) = ''diamond''"
    using assms by (simp_all add: getMultiplierTier_cases)
  moreover have "tier (getMultiplierTier 100000) = ''gold''"
    and "satsToNextTier (getMultiplierTier 4000) = Some 1000"
    by (simp_all add: getMultiplierTier_cases)
  ultimately show ?thesis
    using getMultiplierTier_index[OF assms] by simp
qed

text \<open>The theorem at the balance 30000, which the silver threshold is the first to meet.\<close>

theorem getMultiplierTier_first_threshold_witness:
  "(0::real) \<le> 30000
   \<and> (\<exists>i<length tier_table.
         (\<forall>j<i. (30000::real) < tt_sats j) \<and> tt_sats i \<le> 30000 \<and>
         getMultiplierTier 30000 = tier_at i 30000)
   \<and> getMultiplierTier 30000 =
       \<lparr>tier = ''silver'', multiplier = 3 / 2, nextTier = Some ''gold'',
        satsToNextTier = Some 70000\<rparr>"
  using getMultiplierTier_first_threshold[of 30000]
  by (simp add: getMultiplierTier_cases)

lemma calculatePercentile_count:
  assumes "xs \<noteq> []"
  shows "calculatePercentile v xs =
           Inr (Fin (real (length (filter (\<lambda>s. s < v) xs)) / real (length xs) * 100))"
proof -
  have "length (filter (\<lambda>s. s < v) (sort xs)) = length (filter (\<lambda>s. s < v) xs)"
    by (simp add: filter_sort)
  moreover have "sort xs \<noteq> []"
    using assms by (metis length_sort length_0_conv)
  ultimately show ?thesis
    by (simp add: calculatePercentile_def Let_def)
qed

text \<open>
  Claim C6. For every value and every non-empty population, \<^verbatim>\<open>calculatePercentile\<close>
  returns the number of entries strictly less than the value, divided by the length of the
  population, times 100; an entry equal to the value is not counted. In particular the
  percentile of 350 in [100, 200, 300, 400, 500] is 60 and that of 50 in [100, 200, 300]
  is 0.
\<close>

theorem calculatePercentile_strictly_less:
  assumes "population \<noteq> []"
  shows "calculatePercentile userSats population =
           Inr (Fin (real (length (filter (\<lambda>s. s < userSats) population))
                     / real (length population) * 100))
       \<and> calculatePercentile 350 [100, 200, 300, 400, 500] = Inr (Fin 60)
       \<and> calculatePercentile 50 [100, 200, 300] = Inr (Fin 0)"
proof -
  have "calculatePercentile 350 [100, 200, 300, 400, 500] = Inr (Fin 60)"
    and "calculatePercentile 50 [100, 200, 300] = Inr (Fin 0)"
    by (simp_all add: calculatePercentile_def Let_def)
  then show ?thesis
    using calculatePercentile_count[OF assms] by simp
qed

text \<open>
  The theorem at the value 200 in [100, 200, 300]: the tie with the second entry is not
  counted, so one entry of three lies below.
\<close>

theorem calculatePercentile_strictly_less_witness:
  "[100, 200, 300 :: real] \<noteq> []
   \<and> calculatePercentile 200 [100, 200, 300] = Inr (Fin (100 / 3))"
  using calculatePercentile_strictly_less[of "[100, 200, 300]" 200]
  by simp

text \<open>
  Claim C9. On the empty population \<^verbatim>\<open>calculatePercentile\<close> divides 0 by 0 without a
  guard: for every value it returns \<open>NaN\<close>; there is no fallback value and nothing is
  raised.
\<close>

theorem calculatePercentile_empty_NaN:
  "calculatePercentile userSats [] = Inr NaN"
  by (simp add: calculatePercentile_def signed_inf_def)

lemma multiplier_ge_1: "1 \<le> multiplier (getMultiplierTier x)"
  by (simp add: getMultiplierTier_cases)

lemma projectSatsEarnings_loop_ge:
  "0 \<le> r \<Longrightarrow> s + r * (days - real i) \<le> projectSatsEarnings_loop i days r s"
proof (induction i days r s rule: projectSatsEarnings_loop.induct)
  case (1 i days r s)
  show ?case
  proof (cases "real i < days")
    case True
    have m: "r \<le> r * multiplier (getMultiplierTier s)"
      using multiplier_ge_1[of s] "1.prems" by (simp add: mult_le_cancel_left1)
    have "s + r * (days - real i) = (s + r) + r * (days - real (i + 1))"
      by (simp add: algebra_simps)
    also have "\<dots> \<le> (s + r * multiplier (getMultiplierTier s)) + r * (days - real (i + 1))"
      using m by simp
    also have "\<dots> \<le> projectSatsEarnings_loop (i + 1) days r
                        (s + r * multiplier (getMultiplierTier s))"
      using "1.IH"[OF True "1.prems"] .
    finally show ?thesis using True by simp
  next
    case False
    then have "r * (days - real i) \<le> 0"
      using "1.prems" by (simp add: mult_nonneg_nonpos)
    with False show ?thesis by simp
  qed
qed

text \<open>
  Claim C10, as the code has it. For every \<open>currentBalance \<ge> 0\<close>, \<open>dailyEarningRate \<ge> 0\<close>
  and \<open>days \<ge> 0\<close>, in exact arithmetic the \<^verbatim>\<open>projectedSats\<close> that \<^verbatim>\<open>projectSatsEarnings\<close>
  returns with compounding is at least the one it returns without, which is
  \<open>currentBalance + dailyEarningRate * days\<close>: every multiplier of the table is at least 1.
  On doubles the additions of the loop, each rounded, can end below the one rounded
  product.
\<close>

theorem projectSatsEarnings_compounding_ge:
  assumes "0 \<le> currentBalance" and "0 \<le> dailyEarningRate" and "0 \<le> days"
  shows "projectedSats (projectSatsEarnings currentBalance dailyEarningRate days False)
           = currentBalance + dailyEarningRate * days
       \<and> projectedSats (projectSatsEarnings currentBalance dailyEarningRate days False)
           \<le> projectedSats (projectSatsEarnings currentBalance dailyEarningRate days True)"
  using projectSatsEarnings_loop_ge[OF assms(2), of currentBalance days 0]
  by (simp add: projectSatsEarnings_def Let_def)

text \<open>
  The theorem at a balance of 4000 earning 100 a day for 30 days: the bronze threshold is
  passed after ten days, and compounding ends at 7500 against 7000.
\<close>

theorem projectSatsEarnings_compounding_ge_witness:
  "(0::real) \<le> 4000 \<and> (0::real) \<le> 100 \<and> (0::real) \<le> 30
   \<and> projectedSats (projectSatsEarnings 4000 100 30 False) = 7000
   \<and> projectedSats (projectSatsEarnings 4000 100 30 False)
       \<le> projectedSats (projectSatsEarnings 4000 100 30 True)
   \<and> projectedSats (projectSatsEarnings 4000 100 30 True) = 7500"
proof -
  have "projectedSats (projectSatsEarnings 4000 100 30 True) = 7500"
    by (simp add: projectSatsEarnings_def Let_def getMultiplierTier_cases)
  then show ?thesis
    using projectSatsEarnings_compounding_ge[of 4000 100 30] by simp
qed

text \<open>
  The claim as stated compares the two results as the code returns them. From a balance
  of 0 at a rate of 0.1 a day for 10 days, the loop adds the double 0.1 ten times at the
  multiplier 1.0 and ends at 0.9999999999999999, while \<^verbatim>\<open>0 + 0.1 * 10\<close> is 1.
\<close>

theorem projectSatsEarnings_double_below:
  "projectedSats (projectSatsEarnings_double 0 (fl (1 / 10)) 10 True)
     = 9007199254740991 / 9007199254740992
   \<and> projectedSats (projectSatsEarnings_double 0 (fl (1 / 10)) 10 False) = 1
   \<and> 0 \<le> fl (1 / 10)
   \<and> \<not> (projectedSats (projectSatsEarnings_double 0 (fl (1 / 10)) 10 False)
          \<le> projectedSats (projectSatsEarnings_double 0 (fl (1 / 10)) 10 True))"
  by (simp add: projectSatsEarnings_double_def Let_def getMultiplierTier_cases double_simps)

section \<open>yieldUtils: rate conversion and earnings\<close>

text \<open>In exact arithmetic \<^verbatim>\<open>apyToApr\<close> undoes \<^verbatim>\<open>aprToApy\<close> whenever \<open>1 + apr / n > 0\<close>.\<close>

lemma apyToApr_aprToApy_exact:
  assumes "- n < apr" and "0 < n"
  shows "aprToApy apr n = Fin ((1 + apr / n) powr n - 1)
       \<and> apyToApr ((1 + apr / n) powr n - 1) n = Fin apr"
proof -
  let ?b = "1 + apr / n"
  have b: "0 < ?b"
    using assms by (simp add: field_simps)
  have fwd: "aprToApy apr n = Fin (?b powr n - 1)"
    using assms b by (simp add: aprToApy_def js_sub_def)
  have "(?b powr n) powr (1 / n) = ?b"
    using assms b by (simp add: powr_powr)
  then have bwd: "apyToApr (?b powr n - 1) n = Fin apr"
    using assms b by (simp add: apyToApr_def js_sub_def field_simps)
  show ?thesis
    using fwd bwd by blast
qed

text \<open>
  On doubles the round trip is followed through logarithms: a rounding changes the
  logarithm of a positive number by about \<open>2 ^ -53\<close>, the power multiplies the error of the
  logarithm by \<open>n\<close> and the root divides it by \<open>n\<close> again.
\<close>

lemma ln_abs_diff:
  fixes c x y :: real
  assumes "0 < c" and "c \<le> x" and "c \<le> y"
  shows "\<bar>ln x - ln y\<bar> \<le> \<bar>x - y\<bar> / c"
proof -
  have x: "0 < x" and y: "0 < y" using assms by linarith+
  have h: "\<And>v w::real. c \<le> w \<Longrightarrow> w \<le> v \<Longrightarrow> \<bar>ln v - ln w\<bar> \<le> \<bar>v - w\<bar> / c"
  proof -
    fix v w :: real
    assume cw: "c \<le> w" and wv: "w \<le> v"
    have w: "0 < w" and v: "0 < v" using cw wv assms(1) by linarith+
    have "ln v - ln w \<le> (v - w) / w" using v w by (rule ln_diff_le)
    also have "\<dots> \<le> (v - w) / c"
      using cw wv assms(1) by (intro divide_left_mono) (simp_all)
    finally have "ln v - ln w \<le> (v - w) / c" .
    moreover have "ln w \<le> ln v" using w wv by simp
    ultimately show "\<bar>ln v - ln w\<bar> \<le> \<bar>v - w\<bar> / c" using wv by simp
  qed
  show ?thesis
  proof (cases "y \<le> x")
    case True
    then show ?thesis using h[of y x] assms by simp
  next
    case False
    then have "\<bar>ln y - ln x\<bar> \<le> \<bar>y - x\<bar> / c" using h[of x y] assms by simp
    then show ?thesis by (simp add: abs_minus_commute)
  qed
qed

lemma ln_rel:
  fixes p x k :: real
  assumes "0 < p" and "\<bar>x - p\<bar> \<le> k * p" and "k \<le> 1 / 100"
  shows "0 < x" and "\<bar>ln x - ln p\<bar> \<le> k * (102 / 100)"
proof -
  have kp: "k * p \<le> p / 100"
    using assms(1,3) by (simp add: mult_right_mono)
  then have c: "99 / 100 * p \<le> x" using assms(2) by linarith
  moreover have "0 < 99 / 100 * p" using assms(1) by simp
  ultimately show "0 < x" by linarith
  have c0: "0 < 99 / 100 * p" using assms(1) by simp
  have "\<bar>ln x - ln p\<bar> \<le> \<bar>x - p\<bar> / (99 / 100 * p)"
    using c0 c assms(1) by (intro ln_abs_diff) simp_all
  also have "\<dots> \<le> (k * p) / (99 / 100 * p)"
    using assms(2) c0 by (intro divide_right_mono) simp_all
  also have "\<dots> = k * (100 / 99)" using assms(1) by simp
  also have "\<dots> \<le> k * (102 / 100)"
  proof -
    have "0 \<le> k * p" using assms(2) by linarith
    then have "0 \<le> k" using assms(1) by (simp add: zero_le_mult_iff)
    then show ?thesis by (intro mult_left_mono) simp_all
  qed
  finally show "\<bar>ln x - ln p\<bar> \<le> k * (102 / 100)" .
qed

lemma exp_near:
  fixes t :: real
  assumes "\<bar>t\<bar> \<le> 1 / 100"
  shows "\<bar>exp t - 1\<bar> \<le> \<bar>t\<bar> * (101 / 100)"
proof (cases "0 \<le> t")
  case True
  have "exp t \<le> 1 + t + t\<^sup>2" using True assms by (intro exp_bound) simp_all
  moreover have "t\<^sup>2 \<le> t * (1 / 100)"
    unfolding power2_eq_square using True assms by (intro mult_left_mono) simp_all
  moreover have "1 \<le> exp t" using True by simp
  ultimately show ?thesis using True by simp
next
  case False
  have a: "1 + t \<le> exp t" by (rule exp_ge_add_one_self)
  have b: "exp t \<le> 1" using False by simp
  have c: "\<bar>t\<bar> \<le> \<bar>t\<bar> * (101 / 100)" by simp
  show ?thesis using a b c False by linarith
qed

lemma exp_3: "exp (3::real) \<le> 27"
proof -
  have "exp (of_nat 3 * (1::real)) = exp 1 ^ 3" by (rule exp_of_nat_mult)
  then have "exp (3::real) = exp 1 ^ 3" by simp
  also have "\<dots> \<le> 3 ^ 3" by (intro power_mono exp_le) simp
  finally show ?thesis by simp
qed

lemma exp_6: "exp (6::real) \<le> 729"
proof -
  have "exp (of_nat 6 * (1::real)) = exp 1 ^ 6" by (rule exp_of_nat_mult)
  then have "exp (6::real) = exp 1 ^ 6" by simp
  also have "\<dots> \<le> 3 ^ 6" by (intro power_mono exp_le) simp
  finally show ?thesis by simp
qed

lemma round_trip_error:
  fixes apr n d1 d2 :: real
  assumes n: "12 \<le> n" "n \<le> 365" and apr: "- 99 / 100 \<le> apr" "apr \<le> 5"
    and d1: "\<bar>d1\<bar> \<le> 1 / 2 ^ 52" and d2: "\<bar>d2\<bar> \<le> 1 / 2 ^ 52"
  defines "x2 \<equiv> fl (1 + fl (apr / n))"
  defines "x3 \<equiv> fl (x2 powr n * (1 + d1))"
  defines "y1 \<equiv> fl (1 + fl (x3 - 1))"
  defines "y2 \<equiv> fl (1 / n)"
  defines "y3 \<equiv> fl (y1 powr y2 * (1 + d2))"
  shows "0 < x2" and "0 < y1" and "y2 \<noteq> 0"
    and "\<bar>fl (n * fl (y3 - 1)) - apr\<bar> \<le> 1 / 10 ^ 12"
proof -
  define a where "a = apr / n"
  define b where "b = 1 + a"
  have n0: "0 < n" using n by linarith
  have p53: "(2::real) ^ 53 = 9007199254740992" and p52: "(2::real) ^ 52 = 4503599627370496"
    by simp_all
  have a_hi: "a \<le> 5 / 12"
    using n apr n0 by (simp add: a_def field_simps)
  have a_lo: "- 33 / 400 \<le> a"
    using n apr n0 by (simp add: a_def field_simps)
  have abs_a: "\<bar>a\<bar> \<le> 5 / 12" using a_hi a_lo unfolding p53 p52 add_divide_distrib by linarith
  have b_lo: "367 / 400 \<le> b" and b_hi: "b \<le> 17 / 12"
    using a_hi a_lo unfolding b_def p53 p52 add_divide_distrib by linarith+
  have b_pos: "0 < b" using b_lo by simp

  define x1 where "x1 = fl a"
  have e1: "\<bar>x1 - a\<bar> \<le> (5 / 12 + 1 / 1000) / 2 ^ 53"
    unfolding x1_def by (rule fl_err_le[OF abs_a]) simp
  define s where "s = 1 + x1"
  have s_abs: "\<bar>s\<bar> \<le> 3 / 2" using e1 a_hi a_lo unfolding s_def p53 p52 add_divide_distrib by linarith
  have e2': "\<bar>fl s - s\<bar> \<le> (3 / 2 + 1 / 1000) / 2 ^ 53"
    by (rule fl_err_le[OF s_abs]) simp
  have x2_eq: "x2 = fl s" by (simp add: x2_def s_def x1_def a_def)
  have e2: "\<bar>x2 - b\<bar> \<le> 2 / 2 ^ 53"
    using e1 e2' unfolding x2_eq b_def s_def p53 p52 add_divide_distrib by linarith
  have x2_lo: "9 / 10 \<le> x2" using e2 b_lo unfolding p53 p52 add_divide_distrib by linarith
  show x2_pos: "0 < x2" using x2_lo by simp
  have "\<bar>ln x2 - ln b\<bar> \<le> \<bar>x2 - b\<bar> / (9 / 10)"
    using x2_lo b_lo by (intro ln_abs_diff) simp_all
  also have "\<dots> \<le> (2 / 2 ^ 53) / (9 / 10)"
    using e2 by (intro divide_right_mono) simp_all
  finally have r2: "\<bar>ln x2 - ln b\<bar> \<le> (20 / 9) / 2 ^ 53" by simp

  define L where "L = n * ln b"
  have "ln b \<le> b - 1" using b_pos by (rule ln_le_minus_one)
  then have "n * ln b \<le> n * a" using n0 by (simp add: b_def)
  moreover have na: "n * a = apr" using n0 by (simp add: a_def)
  ultimately have L_hi: "L \<le> 5" using apr unfolding L_def p53 p52 add_divide_distrib by linarith
  have "ln (1 / b) \<le> 1 / b - 1" using b_pos by (intro ln_le_minus_one) simp
  moreover have "ln (1 / b) = - ln b" using b_pos by (simp add: ln_div)
  moreover have "1 - 1 / b = a / b" using b_pos by (simp add: b_def field_simps)
  ultimately have "a / b \<le> ln b" unfolding p53 p52 add_divide_distrib by linarith
  then have "n * (a / b) \<le> n * ln b" using n0 by (intro mult_left_mono) simp_all
  moreover have "n * (a / b) = apr / b" using na by simp
  moreover have "- 2 \<le> apr / b"
  proof -
    have "- 2 * b \<le> apr" using b_lo apr unfolding p53 p52 add_divide_distrib by linarith
    then show ?thesis using b_pos by (simp add: field_simps)
  qed
  ultimately have L_lo: "- 2 \<le> L" unfolding L_def p53 p52 add_divide_distrib by linarith
  have LL: "\<bar>L\<bar> \<le> 5" using L_lo L_hi unfolding p53 p52 add_divide_distrib by linarith

  define p3 where "p3 = x2 powr n * (1 + d1)"
  have "(1::real) / 2 ^ 52 \<le> 1 / 100" by simp
  then have d1_lo: "99 / 100 \<le> 1 + d1" using d1 unfolding p53 p52 add_divide_distrib by linarith
  have d1_pos: "0 < 1 + d1" using d1_lo by simp
  have p3_pos: "0 < p3" using x2_pos d1_pos by (simp add: p3_def)
  have ln_p3: "ln p3 = n * ln x2 + ln (1 + d1)"
    using x2_pos d1_pos by (simp add: p3_def ln_mult ln_powr)
  have "\<bar>ln (1 + d1) - ln 1\<bar> \<le> \<bar>(1 + d1) - 1\<bar> / (99 / 100)"
    using d1_lo by (intro ln_abs_diff) simp_all
  also have "\<dots> \<le> (1 / 2 ^ 52) / (99 / 100)"
    using d1 by (intro divide_right_mono) simp_all
  also have "\<dots> \<le> (41 / 20) / 2 ^ 53" by simp
  finally have ld1: "\<bar>ln (1 + d1)\<bar> \<le> (41 / 20) / 2 ^ 53" by simp
  have "\<bar>n * (ln x2 - ln b)\<bar> = n * \<bar>ln x2 - ln b\<bar>"
    using n0 by (simp add: abs_mult)
  also have "\<dots> \<le> n * ((20 / 9) / 2 ^ 53)"
    using r2 n0 by (intro mult_left_mono) simp_all
  finally have nr2: "\<bar>n * (ln x2 - ln b)\<bar> \<le> n * ((20 / 9) / 2 ^ 53)" .
  have "ln p3 - L = n * (ln x2 - ln b) + ln (1 + d1)"
    by (simp add: ln_p3 L_def algebra_simps)
  moreover have "(n * (20 / 9) + 41 / 20) / 2 ^ 53
      = n * ((20 / 9) / 2 ^ 53) + (41 / 20) / 2 ^ 53"
    by (simp add: add_divide_distrib)
  ultimately have R3: "\<bar>ln p3 - L\<bar> \<le> (n * (20 / 9) + 41 / 20) / 2 ^ 53"
    using nr2 ld1 unfolding p53 p52 add_divide_distrib by linarith
  have "(n * (20 / 9) + 41 / 20) / 2 ^ 53 \<le> (365 * (20 / 9) + 41 / 20) / 2 ^ 53"
    using n by (intro divide_right_mono) simp_all
  moreover have "(365 * (20 / 9) + 41 / 20) / 2 ^ 53 \<le> (1::real) / 10" by simp
  ultimately have R3n: "\<bar>ln p3 - L\<bar> \<le> 1 / 10" using R3 unfolding p53 p52 add_divide_distrib by linarith
  have lp_lo: "- 3 \<le> ln p3" and lp_hi: "ln p3 \<le> 6"
    using R3n L_lo L_hi unfolding p53 p52 add_divide_distrib by linarith+
  have elp: "exp (ln p3) = p3" using p3_pos by simp
  have "exp (- 3) \<le> exp (ln p3)" using lp_lo by simp
  moreover have "1 / 27 \<le> exp (- (3::real))"
    using exp_3 by (simp add: exp_minus field_simps)
  ultimately have p3_lo: "1 / 27 \<le> p3" using elp unfolding p53 p52 add_divide_distrib by linarith
  have "exp (ln p3) \<le> exp 6" using lp_hi by simp
  then have p3_hi: "p3 \<le> 729" using elp exp_6 unfolding p53 p52 add_divide_distrib by linarith

  have x3_eq: "x3 = fl p3" by (simp add: x3_def p3_def)
  have e3: "\<bar>x3 - p3\<bar> \<le> p3 / 2 ^ 53"
    unfolding x3_eq using p3_lo p3_hi by (intro fl_rel_pos) simp_all
  then have e3k: "\<bar>x3 - p3\<bar> \<le> (1 / 2 ^ 53) * p3" by simp
  have x3_pos: "0 < x3" and r3: "\<bar>ln x3 - ln p3\<bar> \<le> (1 / 2 ^ 53) * (102 / 100)"
    using ln_rel[OF p3_pos e3k] by simp_all
  have x3_lo: "1 / 28 \<le> x3" and x3_hi: "x3 \<le> 730"
    using e3 p3_lo p3_hi unfolding p53 p52 add_divide_distrib by linarith+

  define x4 where "x4 = fl (x3 - 1)"
  have "\<bar>x3 - 1\<bar> \<le> 731" using x3_lo x3_hi unfolding p53 p52 add_divide_distrib by linarith
  then have "\<bar>x3 - 1\<bar> < 2 ^ 1101" by simp
  then have "\<bar>x4 - (x3 - 1)\<bar> \<le> (\<bar>x3 - 1\<bar> + 1 / 1000) / 2 ^ 53"
    unfolding x4_def by (rule fl_abs_err)
  also have "\<dots> \<le> (x3 + 1 + 1 / 1000) / 2 ^ 53"
  proof -
    have "\<bar>x3 - 1\<bar> \<le> x3 + 1" using x3_pos unfolding p53 p52 add_divide_distrib by linarith
    then show ?thesis by (intro divide_right_mono) simp_all
  qed
  finally have e4: "\<bar>x4 - (x3 - 1)\<bar> \<le> (x3 + 1 + 1 / 1000) / 2 ^ 53" .
  have x4s: "\<bar>1 + x4\<bar> \<le> x3 + (x3 + 1 + 1 / 1000) / 2 ^ 53"
    using e4 x3_pos unfolding p53 p52 add_divide_distrib by linarith
  have y1_eq: "y1 = fl (1 + x4)" by (simp add: y1_def x4_def)
  have "\<bar>1 + x4\<bar> \<le> 732" using x4s x3_hi x3_pos unfolding p53 p52 add_divide_distrib by linarith
  then have "\<bar>1 + x4\<bar> < 2 ^ 1101" by simp
  then have "\<bar>y1 - (1 + x4)\<bar> \<le> (\<bar>1 + x4\<bar> + 1 / 1000) / 2 ^ 53"
    unfolding y1_eq by (rule fl_abs_err)
  also have "\<dots> \<le> (x3 + (x3 + 1 + 1 / 1000) / 2 ^ 53 + 1 / 1000) / 2 ^ 53"
    using x4s by (intro divide_right_mono) simp_all
  finally have e5: "\<bar>y1 - (1 + x4)\<bar>
      \<le> (x3 + (x3 + 1 + 1 / 1000) / 2 ^ 53 + 1 / 1000) / 2 ^ 53" .
  have e5k: "\<bar>y1 - x3\<bar> \<le> (31 / 2 ^ 53) * x3"
    using e4 e5 x3_lo unfolding p53 p52 add_divide_distrib by linarith
  show y1_pos: "0 < y1"
    using ln_rel(1)[OF x3_pos e5k] by simp
  have r5: "\<bar>ln y1 - ln x3\<bar> \<le> (31 / 2 ^ 53) * (102 / 100)"
    using ln_rel(2)[OF x3_pos e5k] by simp
  have R5: "\<bar>ln y1 - L\<bar> \<le> (n * (20 / 9) + 36) / 2 ^ 53"
    using R3 r3 r5 unfolding p53 p52 add_divide_distrib by linarith

  define r where "r = 1 / n"
  have r_lo: "1 / 365 \<le> r" and r_hi: "r \<le> 1 / 12"
    using n n0 by (simp_all add: r_def field_simps)
  have r_pos: "0 < r" using n0 by (simp add: r_def)
  have "1 / 2 ^ 1000 \<le> r"
  proof -
    have "(1::real) / 2 ^ 1000 \<le> 1 / 365" by simp
    then show ?thesis using r_lo by linarith
  qed
  moreover have "r \<le> 2 ^ 1000"
  proof -
    have "(1::real) / 12 \<le> 2 ^ 1000" by simp
    then show ?thesis using r_hi by linarith
  qed
  ultimately have "\<bar>fl r - r\<bar> \<le> r / 2 ^ 53" by (rule fl_rel_pos)
  then have e6: "\<bar>y2 - r\<bar> \<le> r / 2 ^ 53" by (simp add: y2_def r_def)
  have y2_pos: "0 < y2"
    using e6 r_pos unfolding p53 by linarith
  show "y2 \<noteq> 0" using y2_pos by simp
  have y2_hi: "\<bar>y2\<bar> \<le> r + r / 2 ^ 53"
    using e6 y2_pos unfolding p53 by linarith

  define t where "t = y2 * ln y1 - ln b"
  define A where "A = y2 * (ln y1 - L)"
  define B where "B = (y2 - r) * L"
  have t_eq: "t = A + B"
    using n0 by (simp add: t_def L_def r_def A_def B_def algebra_simps)
  have "\<bar>y2 * (ln y1 - L)\<bar> = \<bar>y2\<bar> * \<bar>ln y1 - L\<bar>" by (simp add: abs_mult)
  also have "\<dots> \<le> (r + r / 2 ^ 53) * ((n * (20 / 9) + 36) / 2 ^ 53)"
    using y2_hi R5 r_pos by (intro mult_mono) simp_all
  also have "\<dots> = (1 + 1 / 2 ^ 53) * ((20 / 9 + 36 / n) / 2 ^ 53)"
    using n0 by (simp add: r_def field_simps)
  also have "\<dots> \<le> (1 + 1 / 2 ^ 53) * ((20 / 9 + 3) / 2 ^ 53)"
  proof -
    have "36 / n \<le> 3" using n n0 by (simp add: field_simps)
    then show ?thesis by (intro mult_left_mono divide_right_mono) simp_all
  qed
  also have "\<dots> \<le> (523 / 100) / 2 ^ 53" by simp
  finally have t1: "\<bar>A\<bar> \<le> (523 / 100) / 2 ^ 53" by (simp add: A_def)
  have "\<bar>(y2 - r) * L\<bar> = \<bar>y2 - r\<bar> * \<bar>L\<bar>" by (simp add: abs_mult)
  also have "\<dots> \<le> (r / 2 ^ 53) * 5"
    using e6 LL r_pos by (intro mult_mono) simp_all
  also have "\<dots> \<le> ((1 / 12) / 2 ^ 53) * 5"
    using r_hi by (intro mult_right_mono divide_right_mono) simp_all
  also have "\<dots> = (5 / 12) / 2 ^ 53" by simp
  finally have t2: "\<bar>B\<bar> \<le> (5 / 12) / 2 ^ 53" by (simp add: B_def)
  have t_b: "\<bar>t\<bar> \<le> (57 / 10) / 2 ^ 53"
    using t1 t2 unfolding t_eq p53 p52 add_divide_distrib by linarith

  define p6 where "p6 = y1 powr y2 * (1 + d2)"
  have "(1::real) / 2 ^ 52 \<le> 1 / 100" by simp
  then have d2_lo: "99 / 100 \<le> 1 + d2" using d2 unfolding p53 p52 add_divide_distrib by linarith
  have d2_pos: "0 < 1 + d2" using d2_lo by simp
  have p6_pos: "0 < p6" using y1_pos d2_pos by (simp add: p6_def)
  have ln_p6: "ln p6 = y2 * ln y1 + ln (1 + d2)"
    using y1_pos d2_pos by (simp add: p6_def ln_mult ln_powr)
  have "\<bar>ln (1 + d2) - ln 1\<bar> \<le> \<bar>(1 + d2) - 1\<bar> / (99 / 100)"
    using d2_lo by (intro ln_abs_diff) simp_all
  also have "\<dots> \<le> (1 / 2 ^ 52) / (99 / 100)"
    using d2 by (intro divide_right_mono) simp_all
  also have "\<dots> \<le> (41 / 20) / 2 ^ 53" by simp
  finally have ld2: "\<bar>ln (1 + d2)\<bar> \<le> (41 / 20) / 2 ^ 53" by simp
  define w where "w = ln p6 - ln b"
  have w_eq: "w = t + ln (1 + d2)" by (simp add: w_def t_def ln_p6)
  have w_b: "\<bar>w\<bar> \<le> (31 / 4) / 2 ^ 53"
    using t_b ld2 unfolding w_eq p53 p52 add_divide_distrib by linarith
  have "exp w = p6 / b" using p6_pos b_pos by (simp add: w_def exp_diff)
  then have p6_eq: "p6 - b = b * (exp w - 1)" using b_pos by (simp add: field_simps)
  have "((31::real) / 4) / 2 ^ 53 \<le> 1 / 100" by simp
  then have "\<bar>w\<bar> \<le> 1 / 100" using w_b unfolding p53 p52 add_divide_distrib by linarith
  then have "\<bar>exp w - 1\<bar> \<le> \<bar>w\<bar> * (101 / 100)"
    by (rule exp_near)
  also have "\<dots> \<le> ((31 / 4) / 2 ^ 53) * (101 / 100)"
    using w_b by (intro mult_right_mono) simp_all
  finally have ew: "\<bar>exp w - 1\<bar> \<le> ((31 / 4) / 2 ^ 53) * (101 / 100)" .
  have "\<bar>p6 - b\<bar> = b * \<bar>exp w - 1\<bar>" using b_pos by (simp add: p6_eq abs_mult)
  also have "\<dots> \<le> (17 / 12) * (((31 / 4) / 2 ^ 53) * (101 / 100))"
    using b_hi ew b_pos by (intro mult_mono) simp_all
  also have "\<dots> \<le> (111 / 10) / 2 ^ 53" by simp
  finally have e6p: "\<bar>p6 - b\<bar> \<le> (111 / 10) / 2 ^ 53" .
  have p6_lo: "9 / 10 \<le> p6" and p6_hi: "p6 \<le> 3 / 2"
    using e6p b_lo b_hi unfolding p53 p52 add_divide_distrib by linarith+
  have y3_eq: "y3 = fl p6" by (simp add: y3_def p6_def)
  have "\<bar>y3 - p6\<bar> \<le> p6 / 2 ^ 53"
    unfolding y3_eq using p6_lo p6_hi by (intro fl_rel_pos) simp_all
  also have "\<dots> \<le> (3 / 2) / 2 ^ 53"
    using p6_hi by (intro divide_right_mono) simp_all
  finally have e7: "\<bar>y3 - p6\<bar> \<le> (3 / 2) / 2 ^ 53" .
  have e7b: "\<bar>y3 - b\<bar> \<le> (126 / 10) / 2 ^ 53"
    using e7 e6p unfolding p53 p52 add_divide_distrib by linarith

  define y4 where "y4 = fl (y3 - 1)"
  have "\<bar>y3 - 1\<bar> \<le> 1 / 2" using e7b a_hi a_lo unfolding b_def p53 p52 add_divide_distrib by linarith
  then have "\<bar>y4 - (y3 - 1)\<bar> \<le> (1 / 2 + 1 / 1000) / 2 ^ 53"
    unfolding y4_def by (rule fl_err_le) simp
  then have e8: "\<bar>y4 - a\<bar> \<le> (1311 / 100) / 2 ^ 53"
    using e7b unfolding b_def p53 p52 add_divide_distrib by linarith
  have "n * y4 - apr = n * (y4 - a)" using n0 by (simp add: a_def algebra_simps)
  then have "\<bar>n * y4 - apr\<bar> = n * \<bar>y4 - a\<bar>" using n0 by (simp add: abs_mult)
  also have "\<dots> \<le> 365 * ((1311 / 100) / 2 ^ 53)"
    using n e8 n0 by (intro mult_mono) simp_all
  finally have e9a: "\<bar>n * y4 - apr\<bar> \<le> 365 * ((1311 / 100) / 2 ^ 53)" .
  then have "\<bar>n * y4\<bar> \<le> 6" using apr unfolding p53 p52 add_divide_distrib by linarith
  then have e9: "\<bar>fl (n * y4) - n * y4\<bar> \<le> (6 + 1 / 1000) / 2 ^ 53"
    by (rule fl_err_le) simp
  have p12: "(10::real) ^ 12 = 1000000000000" by simp
  show "\<bar>fl (n * fl (y3 - 1)) - apr\<bar> \<le> 1 / 10 ^ 12"
    using e9 e9a unfolding y4_def p53 p12 add_divide_distrib by linarith
qed

text \<open>
  Claim C1, as the code has it. On doubles, for every \<open>apr\<close> in \<open>[-0.99, 5]\<close> and every
  number \<open>n\<close> of periods from 12 to 365 (12 and 365 in particular), both conversions
  return finite numbers and \<open>apyToApr (aprToApy apr n) n\<close> differs from \<open>apr\<close> by at most
  \<open>1e-12\<close>; the error is therefore within \<open>1e-6\<close> relative to \<open>apr\<close> whenever
  \<open>\<bar>apr\<bar> \<ge> 1e-6\<close>. This holds for every \<^verbatim>\<open>Math.pow\<close> whose two calls have a relative
  error of at most \<open>2 ^ -52\<close>.
\<close>

theorem apyToApr_aprToApy_double_tolerance:
  assumes "12 \<le> n" and "n \<le> 365" and "- 99 / 100 \<le> apr" and "apr \<le> 5"
    and "\<bar>err1\<bar> \<le> 1 / 2 ^ 52" and "\<bar>err2\<bar> \<le> 1 / 2 ^ 52"
  shows "\<exists>apy r. aprToApy_double err1 apr n = Fin apy
           \<and> apyToApr_double err2 apy n = Fin r
           \<and> \<bar>r - apr\<bar> \<le> 1 / 10 ^ 12
           \<and> (1 / 10 ^ 6 \<le> \<bar>apr\<bar> \<longrightarrow> \<bar>r - apr\<bar> \<le> 1 / 10 ^ 6 * \<bar>apr\<bar>)"
proof -
  define x2 where "x2 = fl (1 + fl (apr / n))"
  define x3 where "x3 = fl (x2 powr n * (1 + err1))"
  define y1 where "y1 = fl (1 + fl (x3 - 1))"
  define y2 where "y2 = fl (1 / n)"
  define y3 where "y3 = fl (y1 powr y2 * (1 + err2))"
  define r where "r = fl (n * fl (y3 - 1))"
  have x2_pos: "0 < x2"
    unfolding x2_def by (rule round_trip_error(1)[OF assms])
  have y1_pos: "0 < y1"
    unfolding y1_def x3_def x2_def by (rule round_trip_error(2)[OF assms])
  have y2_nz: "y2 \<noteq> 0"
    unfolding y2_def by (rule round_trip_error(3)[OF assms])
  have err: "\<bar>r - apr\<bar> \<le> 1 / 10 ^ 12"
    unfolding r_def y3_def y2_def y1_def x3_def x2_def by (rule round_trip_error(4)[OF assms])
  have n0: "n \<noteq> 0" using assms(1) by linarith
  have fwd: "aprToApy_double err1 apr n = Fin (fl (x3 - 1))"
    using n0 x2_pos
    by (simp add: aprToApy_double_def Math_pow_def d_add_def d_sub_def d_div_def js_sub_def
        x2_def[symmetric] x3_def[symmetric])
  have bwd: "apyToApr_double err2 (fl (x3 - 1)) n = Fin r"
    using n0 y1_pos y2_nz
    by (simp add: apyToApr_double_def Math_pow_def d_add_def d_sub_def d_div_def d_mul_def
        js_sub_def y1_def[symmetric] y2_def[symmetric] y3_def[symmetric] r_def[symmetric])
  have rel: "1 / 10 ^ 6 \<le> \<bar>apr\<bar> \<longrightarrow> \<bar>r - apr\<bar> \<le> 1 / 10 ^ 6 * \<bar>apr\<bar>"
  proof
    assume h: "1 / 10 ^ 6 \<le> \<bar>apr\<bar>"
    note err
    also have "(1::real) / 10 ^ 12 = 1 / 10 ^ 6 * (1 / 10 ^ 6)"
      by simp
    also have "\<dots> \<le> 1 / 10 ^ 6 * \<bar>apr\<bar>"
      using h by (intro mult_left_mono) simp_all
    finally show "\<bar>r - apr\<bar> \<le> 1 / 10 ^ 6 * \<bar>apr\<bar>" .
  qed
  show ?thesis
    using fwd bwd err rel by blast
qed

text \<open>The theorem at a rate of 0.10 compounded monthly, with a correctly rounded power.\<close>

theorem apyToApr_aprToApy_double_tolerance_witness:
  "(12::real) \<le> 12 \<and> (12::real) \<le> 365 \<and> - 99 / 100 \<le> (1 / 10 :: real) \<and> (1 / 10 :: real) \<le> 5
   \<and> \<bar>0 :: real\<bar> \<le> 1 / 2 ^ 52
   \<and> (\<exists>apy r. aprToApy_double 0 (1 / 10) 12 = Fin apy
          \<and> apyToApr_double 0 apy 12 = Fin r
          \<and> \<bar>r - 1 / 10\<bar> \<le> 1 / 10 ^ 12
          \<and> \<bar>r - 1 / 10\<bar> \<le> 1 / 10 ^ 6 * \<bar>1 / 10\<bar>)"
  using apyToApr_aprToApy_double_tolerance[of 12 "1 / 10" 0 0]
  by simp

text \<open>
  The claim as stated bounds the error on doubles by \<open>1e-6\<close> relative to \<open>apr\<close> on the
  whole of \<open>[-0.99, 5]\<close>. For the rate \<open>2 ^ -60\<close> compounded daily the sum
  \<^verbatim>\<open>1 + apr / 365\<close> rounds to 1, the yield is 0 and the rate that comes back is 0: the
  error is the whole of \<open>apr\<close>. The power of 1 is 1 without error.
\<close>

theorem apyToApr_aprToApy_double_absorbed:
  "aprToApy_double 0 (1 / 2 ^ 60) 365 = Fin 0
   \<and> apyToApr_double 0 0 365 = Fin 0
   \<and> - 99 / 100 \<le> (1 / 2 ^ 60 :: real) \<and> (1 / 2 ^ 60 :: real) \<le> 5
   \<and> \<not> (\<bar>0 - 1 / 2 ^ 60\<bar> \<le> 1 / 10 ^ 6 * \<bar>1 / 2 ^ 60 :: real\<bar>)"
  by (simp add: aprToApy_double_def apyToApr_double_def Math_pow_def double_simps)

text \<open>
  Claim C2, as the code has it. \<^verbatim>\<open>calculateEarnings\<close> has no guard on \<open>days\<close> and signals
  nothing: for every principal, yield and compounding flag, a call with \<open>days = 0\<close>
  returns, with \<^verbatim>\<open>finalAmount\<close> the principal, \<^verbatim>\<open>earnings\<close> 0 and \<^verbatim>\<open>dailyEarnings\<close> the
  quotient 0 / 0, which is \<open>NaN\<close>.
\<close>

theorem calculateEarnings_zero_days:
  "calculateEarnings p apy 0 compounding =
     Inr \<lparr>finalAmount = Fin p, earnings = Fin 0, dailyEarnings = NaN\<rparr>"
  by (simp add: calculateEarnings_def Let_def js_sub_def signed_inf_def)

text \<open>
  The claim as stated asks for an \<open>InvalidArgument\<close> failure at \<open>days = 0\<close>. With a
  principal of 1000 at a yield of 0.10, compounding, the call returns a result instead.
\<close>

theorem calculateEarnings_zero_days_no_error:
  "calculateEarnings 1000 (1 / 10) 0 True \<noteq> Inl InvalidArgument
   \<and> calculateEarnings 1000 (1 / 10) 0 True =
       Inr \<lparr>finalAmount = Fin 1000, earnings = Fin 0, dailyEarnings = NaN\<rparr>"
  by (simp add: calculateEarnings_def Let_def js_sub_def signed_inf_def)

section \<open>cooldownUtils: progress and the clock\<close>

lemma Math_round_mono: "x \<le> y \<Longrightarrow> Math_round x \<le> Math_round y"
  unfolding Math_round_def by (simp add: floor_mono)

lemma Math_round_of_int: "Math_round (of_int k) = of_int k"
proof -
  have "\<lfloor>real_of_int k + 1 / 2\<rfloor> = k"
    by (rule floor_unique) simp_all
  then show ?thesis
    by (simp add: Math_round_def)
qed

text \<open>The field \<^verbatim>\<open>progress\<close> on its own.\<close>

lemma calculateCooldownStatus_progress:
  "progress (calculateCooldownStatus d s e a t) =
     fl (Math_round
           (fl ((if e - s > 0
                 then min 100
                        (fl (fl (real_of_int (current_time d t - s) / real_of_int (e - s)) * 100))
                 else 0) * 100)) / 100)"
  by (simp add: calculateCooldownStatus_def Let_def)

text \<open>Rounding to two decimals, \<^verbatim>\<open>Math.round(p * 100) / 100\<close>, keeps a number in \<open>[0, 100]\<close>.\<close>

lemma two_decimals_bounds:
  assumes "0 \<le> p" and "p \<le> 100"
  shows "0 \<le> fl (Math_round (fl (p * 100)) / 100)"
    and "fl (Math_round (fl (p * 100)) / 100) \<le> 100"
proof -
  have x: "\<bar>p * 100\<bar> < 2 ^ 53"
    using assms by simp
  have "of_int 0 \<le> fl (p * 100)"
    using assms(1) x by (intro fl_ge_of_int) simp_all
  then have "Math_round (of_int 0) \<le> Math_round (fl (p * 100))"
    by (rule Math_round_mono)
  then have m0: "0 \<le> Math_round (fl (p * 100))"
    unfolding Math_round_of_int by simp
  have "fl (p * 100) \<le> of_int 10000"
    using assms(2) x by (intro fl_le_of_int) simp_all
  then have "Math_round (fl (p * 100)) \<le> Math_round (of_int 10000)"
    by (rule Math_round_mono)
  then have m1: "Math_round (fl (p * 100)) \<le> 10000"
    unfolding Math_round_of_int by simp
  have y: "\<bar>Math_round (fl (p * 100)) / 100\<bar> < 2 ^ 53"
    using m0 m1 by simp
  have "of_int 0 \<le> fl (Math_round (fl (p * 100)) / 100)"
    using m0 y by (intro fl_ge_of_int) simp_all
  then show "0 \<le> fl (Math_round (fl (p * 100)) / 100)"
    by simp
  have "fl (Math_round (fl (p * 100)) / 100) \<le> of_int 100"
    using m1 y by (intro fl_le_of_int) simp_all
  then show "fl (Math_round (fl (p * 100)) / 100) \<le> 100"
    by simp
qed

text \<open>
  Claim C3, as the code has it. Let \<open>now\<close> be the time \<^verbatim>\<open>calculateCooldownStatus\<close> works
  with (the argument when it is given and not 0, else the clock), and let the timestamps
  be whole seconds of at most \<open>2 ^ 52\<close> in magnitude. Whenever \<open>start \<le> now\<close>, the
  \<^verbatim>\<open>progress\<close> field is \<open>clamp ((now - start) / (end - start) * 100) 0 100\<close>, computed on
  doubles and then rounded to two decimals by \<^verbatim>\<open>Math.round(p * 100) / 100\<close> on doubles,
  when \<open>end - start > 0\<close>, and it is 0 when \<open>end - start \<le> 0\<close> (in particular when it is
  0); it lies between 0 and 100.
\<close>

theorem progress_rounded_clamp:
  assumes "start \<le> current_time date_now currentTimestamp"
    and "safe_seconds start" and "safe_seconds end"
    and "safe_seconds (current_time date_now currentTimestamp)"
  shows "progress (calculateCooldownStatus date_now start end cooldownAmount currentTimestamp) =
           (if end - start > 0 then
              fl (Math_round
                    (fl (clamp (fl (fl (real_of_int (current_time date_now currentTimestamp - start)
                                          / real_of_int (end - start)) * 100)) 0 100 * 100))
                  / 100)
            else 0)
       \<and> 0 \<le> progress (calculateCooldownStatus date_now start end cooldownAmount currentTimestamp)
       \<and> progress (calculateCooldownStatus date_now start end cooldownAmount currentTimestamp)
           \<le> 100"
proof -
  let ?now = "current_time date_now currentTimestamp"
  let ?r = "fl (fl (real_of_int (?now - start) / real_of_int (end - start)) * 100)"
  let ?p = "progress (calculateCooldownStatus date_now start end cooldownAmount currentTimestamp)"
  show ?thesis
  proof (cases "end - start > 0")
    case True
    have "0 \<le> real_of_int (?now - start) / real_of_int (end - start)"
      using assms(1) True by simp
    then have "0 \<le> fl (real_of_int (?now - start) / real_of_int (end - start)) * 100"
      using fl_nonneg by simp
    then have r0: "0 \<le> ?r"
      by (rule fl_nonneg)
    then have c: "clamp ?r 0 100 = min 100 ?r"
      by (simp add: clamp_def)
    have p: "?p = fl (Math_round (fl (min 100 ?r * 100)) / 100)"
      using True by (simp add: calculateCooldownStatus_progress)
    have "0 \<le> min 100 ?r" and "min 100 ?r \<le> 100"
      using r0 by simp_all
    then have "0 \<le> fl (Math_round (fl (min 100 ?r * 100)) / 100)"
      and "fl (Math_round (fl (min 100 ?r * 100)) / 100) \<le> 100"
      by (rule two_decimals_bounds)+
    then show ?thesis
      using True p c by simp
  next
    case False
    then show ?thesis
      by (simp add: calculateCooldownStatus_progress Math_round_def fl_def)
  qed
qed

text \<open>
  The theorem one second into a cooldown of three: a third, rounded to the double 33.33.
\<close>

theorem progress_rounded_clamp_witness:
  "(1::int) \<le> current_time 0 (Some 2)
   \<and> safe_seconds 1 \<and> safe_seconds 4 \<and> safe_seconds (current_time 0 (Some 2))
   \<and> progress (calculateCooldownStatus 0 1 4 1 (Some 2)) = fl (3333 / 100)
   \<and> 0 \<le> progress (calculateCooldownStatus 0 1 4 1 (Some 2))
   \<and> progress (calculateCooldownStatus 0 1 4 1 (Some 2)) \<le> 100"
  using progress_rounded_clamp[of 1 0 "Some 2" 4 1]
  by (simp add: current_time_def safe_seconds_def clamp_def Math_round_def double_simps)

text \<open>
  The claim as stated gives the unrounded quotient. At the same input the field is the
  double 33.33, while the specification's value is 100 / 3, and 33.33333333333333 when
  the quotient and the product are computed on doubles.
\<close>

theorem progress_not_exact_clamp:
  "progress (calculateCooldownStatus 0 1 4 1 (Some 2)) = 2345390243441541 / 70368744177664
   \<and> progress_spec 1 4 2 = 100 / 3
   \<and> clamp (fl (fl (1 / 3) * 100)) 0 100 = 2345624805922133 / 70368744177664
   \<and> progress (calculateCooldownStatus 0 1 4 1 (Some 2)) \<noteq> progress_spec 1 4 2
   \<and> progress (calculateCooldownStatus 0 1 4 1 (Some 2)) \<noteq> clamp (fl (fl (1 / 3) * 100)) 0 100"
  by (simp add: calculateCooldownStatus_progress current_time_def Math_round_def
      progress_spec_def clamp_def double_simps)

text \<open>
  The rounding to two decimals acts on the double: after 21924 of 604800 seconds the
  exact quotient is 3.625 percent, the doubles give \<open>362.49999999999994\<close> for
  \<^verbatim>\<open>progress * 100\<close>, and the field is 3.62; likewise 14.37 after 23 of 160 seconds, where
  the exact quotient is 14.375 percent.
\<close>

lemma progress_rounds_the_double:
  "progress (calculateCooldownStatus 0 1700000000 1700604800 1 (Some 1700021924))
     = fl (362 / 100)"
  "progress (calculateCooldownStatus 0 1 161 1 (Some 24)) = fl (1437 / 100)"
  by (simp_all add: calculateCooldownStatus_progress current_time_def Math_round_def
      double_simps)

text \<open>
  Before the start of the cooldown the code has no lower bound: the field is negative,
  against the comment \<^verbatim>\<open>// 0-100\<close> on the field \<^verbatim>\<open>progress\<close> of \<^verbatim>\<open>CooldownStatus\<close>. With a
  reversed window (\<open>end < start\<close>) the field is 0 where the specification's value is the
  clamped quotient.
\<close>

lemma progress_negative_before_start:
  "progress (calculateCooldownStatus 0 1000 2000 1 (Some 500)) = - 50"
  by (simp add: calculateCooldownStatus_progress current_time_def Math_round_def
      double_simps)

lemma progress_zero_on_reversed_window:
  "progress (calculateCooldownStatus 0 10 5 1 (Some 7)) = 0 \<and> progress_spec 10 5 7 = 60"
  by (simp add: calculateCooldownStatus_progress current_time_def Math_round_def
      progress_spec_def clamp_def double_simps)

lemma calculateCooldownStatus_now:
  "current_time d1 t1 = current_time d2 t2 \<Longrightarrow>
   calculateCooldownStatus d1 s e a t1 = calculateCooldownStatus d2 s e a t2"
  by (simp add: calculateCooldownStatus_def)

lemma current_time_seconds:
  "d1 div 1000 = d2 div 1000 \<Longrightarrow> current_time d1 t = current_time d2 t"
  by (simp add: current_time_def split: option.splits)

lemma batchCooldownStatus_from_seconds:
  "(\<forall>j<length cooldowns. clock1 (i + j) div 1000 = clock2 (i + j) div 1000) \<Longrightarrow>
   batchCooldownStatus_from clock1 i cooldowns results
     = batchCooldownStatus_from clock2 i cooldowns results"
proof (induction cooldowns arbitrary: i results)
  case Nil
  then show ?case by simp
next
  case (Cons c cs)
  have "clock1 i div 1000 = clock2 i div 1000"
    using Cons.prems[rule_format, of 0] by simp
  then have "current_time (clock1 i) None = current_time (clock2 i) None"
    by (rule current_time_seconds)
  then have h: "calculateCooldownStatus (clock1 i) (cd_startTime c) (cd_endTime c) (cd_amount c) None
      = calculateCooldownStatus (clock2 i) (cd_startTime c) (cd_endTime c) (cd_amount c) None"
    by (rule calculateCooldownStatus_now)
  have "\<forall>j<length cs. clock1 (i + 1 + j) div 1000 = clock2 (i + 1 + j) div 1000"
  proof (intro allI impI)
    fix j
    assume "j < length cs"
    then have "Suc j < length (c # cs)" by simp
    then have "clock1 (i + Suc j) div 1000 = clock2 (i + Suc j) div 1000"
      by (rule Cons.prems[rule_format])
    then show "clock1 (i + 1 + j) div 1000 = clock2 (i + 1 + j) div 1000"
      by simp
  qed
  then have "batchCooldownStatus_from clock1 (i + 1) cs
       (obj_set results (cd_user c)
          (calculateCooldownStatus (clock2 i) (cd_startTime c) (cd_endTime c) (cd_amount c) None))
     = batchCooldownStatus_from clock2 (i + 1) cs
       (obj_set results (cd_user c)
          (calculateCooldownStatus (clock2 i) (cd_startTime c) (cd_endTime c) (cd_amount c) None))"
    by (rule Cons.IH)
  then show ?case
    by (simp only: batchCooldownStatus_from.simps h)
qed

lemma getSeasonTimeRemaining_shift:
  "getSeasonTimeRemaining d e = getSeasonTimeRemaining 0 (e - d)"
  by (simp add: getSeasonTimeRemaining_def)

text \<open>
  Claim C8, as the code has it. Five functions of the cooldown and points utilities read
  the system clock; each is a function of its arguments and of the clock's reading, as
  follows. Two calls of \<^verbatim>\<open>calculateCooldownStatus\<close> or of \<^verbatim>\<open>isCooldownComplete\<close> with
  identical arguments agree whenever the current-time argument is given and not 0; with
  the argument omitted (or 0) they agree whenever the clock shows the same whole second.
  Two calls of \<^verbatim>\<open>parseCooldownEvent\<close> agree whenever \<^verbatim>\<open>Number(args.timestamp)\<close> is neither 0
  nor \<open>NaN\<close>, and otherwise whenever the clock shows the same whole second. Two calls of
  \<^verbatim>\<open>batchCooldownStatus\<close>, which passes no current time, agree whenever the clock shows
  the same whole second at each element of the argument. Two calls of
  \<^verbatim>\<open>getSeasonTimeRemaining\<close>, which has no time parameter, agree whenever the difference
  \<open>endDate - now\<close> is the same.
\<close>

theorem clock_dependence:
  "(ts \<noteq> 0 \<longrightarrow>
      calculateCooldownStatus d1 start end cooldownAmount (Some ts)
        = calculateCooldownStatus d2 start end cooldownAmount (Some ts)
      \<and> isCooldownComplete d1 end (Some ts) = isCooldownComplete d2 end (Some ts))
   \<and> (d1 div 1000 = d2 div 1000 \<longrightarrow>
        calculateCooldownStatus d1 start end cooldownAmount currentTimestamp
          = calculateCooldownStatus d2 start end cooldownAmount currentTimestamp
        \<and> isCooldownComplete d1 end currentTimestamp
            = isCooldownComplete d2 end currentTimestamp
        \<and> parseCooldownEvent d1 eventName args = parseCooldownEvent d2 eventName args)
   \<and> (truthy (arg_timestamp args) \<longrightarrow>
        parseCooldownEvent d1 eventName args = parseCooldownEvent d2 eventName args)
   \<and> ((\<forall>i<length cooldowns. clock1 i div 1000 = clock2 i div 1000) \<longrightarrow>
        batchCooldownStatus clock1 cooldowns = batchCooldownStatus clock2 cooldowns)
   \<and> (endDate1 - d1 = endDate2 - d2 \<longrightarrow>
        getSeasonTimeRemaining d1 endDate1 = getSeasonTimeRemaining d2 endDate2)"
proof (intro conjI impI)
  assume "ts \<noteq> 0"
  then have t: "current_time d1 (Some ts) = current_time d2 (Some ts)"
    by (simp add: current_time_def)
  from t show "calculateCooldownStatus d1 start end cooldownAmount (Some ts)
      = calculateCooldownStatus d2 start end cooldownAmount (Some ts)"
    by (rule calculateCooldownStatus_now)
  from t show "isCooldownComplete d1 end (Some ts) = isCooldownComplete d2 end (Some ts)"
    by (simp add: isCooldownComplete_def)
next
  assume d: "d1 div 1000 = d2 div 1000"
  then have t: "current_time d1 currentTimestamp = current_time d2 currentTimestamp"
    by (rule current_time_seconds)
  from t show "calculateCooldownStatus d1 start end cooldownAmount currentTimestamp
      = calculateCooldownStatus d2 start end cooldownAmount currentTimestamp"
    by (rule calculateCooldownStatus_now)
  from t show "isCooldownComplete d1 end currentTimestamp
      = isCooldownComplete d2 end currentTimestamp"
    by (simp add: isCooldownComplete_def)
  from d show "parseCooldownEvent d1 eventName args = parseCooldownEvent d2 eventName args"
    by (simp add: parseCooldownEvent_def split: option.splits sum.splits)
next
  assume "truthy (arg_timestamp args)"
  then show "parseCooldownEvent d1 eventName args = parseCooldownEvent d2 eventName args"
    by (simp add: parseCooldownEvent_def split: option.splits sum.splits)
next
  assume "\<forall>i<length cooldowns. clock1 i div 1000 = clock2 i div 1000"
  then show "batchCooldownStatus clock1 cooldowns = batchCooldownStatus clock2 cooldowns"
    unfolding batchCooldownStatus_def
    using batchCooldownStatus_from_seconds[of cooldowns clock1 0 clock2 "[]"] by simp
next
  assume "endDate1 - d1 = endDate2 - d2"
  then show "getSeasonTimeRemaining d1 endDate1 = getSeasonTimeRemaining d2 endDate2"
    using getSeasonTimeRemaining_shift[of d1 endDate1] getSeasonTimeRemaining_shift[of d2 endDate2]
    by simp
qed

text \<open>
  The theorem at two readings of the clock 100 seconds apart, for a cooldown from 1000 to
  2000 asked about at 1500 and for an event stamped 1500; at two readings within one
  second, for the same cooldown and event without a time, and for a batch of two such
  cooldowns; and for a season that ends one day after either reading.
\<close>

theorem clock_dependence_witness:
  "(1500::int) \<noteq> 0
   \<and> calculateCooldownStatus 1500000 1000 2000 1 (Some 1500)
       = calculateCooldownStatus 1600000 1000 2000 1 (Some 1500)
   \<and> isCooldownComplete 1500000 2000 (Some 1500) = isCooldownComplete 1600000 2000 (Some 1500)
   \<and> truthy (arg_timestamp (stamped_args (Fin 1500)))
   \<and> parseCooldownEvent 1500000 ''CooldownStarted'' (stamped_args (Fin 1500))
       = parseCooldownEvent 1600000 ''CooldownStarted'' (stamped_args (Fin 1500))
   \<and> (1500000::int) div 1000 = 1500999 div 1000
   \<and> calculateCooldownStatus 1500000 1000 2000 1 None
       = calculateCooldownStatus 1500999 1000 2000 1 None
   \<and> isCooldownComplete 1500000 2000 None = isCooldownComplete 1500999 2000 None
   \<and> parseCooldownEvent 1500000 ''CooldownStarted'' (stamped_args NaN)
       = parseCooldownEvent 1500999 ''CooldownStarted'' (stamped_args NaN)
   \<and> ticking_clock 1500000 1 0 div 1000 = ticking_clock 1500400 1 0 div 1000
   \<and> ticking_clock 1500000 1 1 div 1000 = ticking_clock 1500400 1 1 div 1000
   \<and> batchCooldownStatus (ticking_clock 1500000 1) two_cooldowns
       = batchCooldownStatus (ticking_clock 1500400 1) two_cooldowns
   \<and> (86400000::int) - 0 = 86403000 - 3000
   \<and> getSeasonTimeRemaining 0 86400000 = getSeasonTimeRemaining 3000 86403000"
proof -
  have l: "length two_cooldowns = Suc (Suc 0)"
    by (simp add: two_cooldowns_def)
  show ?thesis
    using clock_dependence[where ts = 1500 and ?d1.0 = 1500000 and ?d2.0 = 1600000
        and start = 1000 and ?end = 2000 and cooldownAmount = 1
        and eventName = "''CooldownStarted''" and args = "stamped_args (Fin 1500)"]
      clock_dependence[where ?d1.0 = 1500000 and ?d2.0 = 1500999
        and start = 1000 and ?end = 2000 and cooldownAmount = 1 and currentTimestamp = None
        and eventName = "''CooldownStarted''" and args = "stamped_args NaN"
        and cooldowns = two_cooldowns and ?clock1.0 = "ticking_clock 1500000 1"
        and ?clock2.0 = "ticking_clock 1500400 1"]
      clock_dependence[where ?d1.0 = 0 and ?d2.0 = 3000 and ?endDate1.0 = 86400000
        and ?endDate2.0 = 86403000]
    by (simp add: l all_less_Suc stamped_args_def ticking_clock_def)
qed

text \<open>
  The claim as stated has two calls with identical arguments agree also when the
  current-time argument is omitted. The same call at two readings of the clock, 1500 and
  1600 seconds, gives two results (the progress is 50 and 60); so do the same calls of
  the other four functions, the last an hour apart.
\<close>

theorem calculateCooldownStatus_depends_on_clock:
  "calculateCooldownStatus 1500000 1000 2000 1 None
     \<noteq> calculateCooldownStatus 1600000 1000 2000 1 None
   \<and> progress (calculateCooldownStatus 1500000 1000 2000 1 None) = 50
   \<and> progress (calculateCooldownStatus 1600000 1000 2000 1 None) = 60
   \<and> isCooldownComplete 1500000 1550 None \<noteq> isCooldownComplete 1600000 1550 None
   \<and> parseCooldownEvent 1500000 ''CooldownStarted'' (stamped_args NaN)
       \<noteq> parseCooldownEvent 1600000 ''CooldownStarted'' (stamped_args NaN)
   \<and> batchCooldownStatus (ticking_clock 1500000 1) two_cooldowns
       \<noteq> batchCooldownStatus (ticking_clock 1600000 1) two_cooldowns
   \<and> getSeasonTimeRemaining 0 86400000 \<noteq> getSeasonTimeRemaining 3600000 86400000"
proof -
  have p: "progress (calculateCooldownStatus 1500000 1000 2000 1 None) = 50"
    "progress (calculateCooldownStatus 1600000 1000 2000 1 None) = 60"
    by (simp_all add: calculateCooldownStatus_progress current_time_def Math_round_def
        double_simps)
  then have "progress (calculateCooldownStatus 1500000 1000 2000 1 None)
      \<noteq> progress (calculateCooldownStatus 1600000 1000 2000 1 None)"
    by simp
  then have c: "calculateCooldownStatus 1500000 1000 2000 1 None
      \<noteq> calculateCooldownStatus 1600000 1000 2000 1 None"
    by auto
  have i: "isCooldownComplete 1500000 1550 None \<noteq> isCooldownComplete 1600000 1550 None"
    by (simp add: isCooldownComplete_def current_time_def)
  have e: "parseCooldownEvent 1500000 ''CooldownStarted'' (stamped_args NaN)
      \<noteq> parseCooldownEvent 1600000 ''CooldownStarted'' (stamped_args NaN)"
    by (simp add: parseCooldownEvent_def eventMap_def stamped_args_def)
  have b: "batchCooldownStatus (ticking_clock 1500000 1) two_cooldowns
      \<noteq> batchCooldownStatus (ticking_clock 1600000 1) two_cooldowns"
    using c by (simp add: batchCooldownStatus_def two_cooldowns_def ticking_clock_def)
  have g: "getSeasonTimeRemaining 0 86400000 \<noteq> getSeasonTimeRemaining 3600000 86400000"
    by (simp add: getSeasonTimeRemaining_def Let_def)
  show ?thesis
    using p c i e b g by blast
qed

section \<open>deltaUtils: liquidation price and counterparty concentration\<close>

lemma calculateLiquidationPrice_formula:
  "leverage \<noteq> 0 \<Longrightarrow>
   calculateLiquidationPrice e leverage isShort m =
     Fin (if isShort then e * (1 + 1 / leverage - m) else e * (1 - 1 / leverage + m))"
  by (simp add: calculateLiquidationPrice_def Let_def js_sub_def)

lemma closer_to_entry_iff:
  fixes e :: real
  assumes "0 < e" and "1 < L1" and "L1 < L2"
  shows "(\<bar>e * (1 - 1 / L2 + m) - e\<bar> < \<bar>e * (1 - 1 / L1 + m) - e\<bar>)
           = (m < (1 / L1 + 1 / L2) / 2)"
    and "(\<bar>e * (1 + 1 / L2 - m) - e\<bar> < \<bar>e * (1 + 1 / L1 - m) - e\<bar>)
           = (m < (1 / L1 + 1 / L2) / 2)"
proof -
  have inv: "1 / L2 < 1 / L1"
    using assms by (simp add: frac_less2)
  have a: "e * (1 - 1 / L2 + m) - e = e * (m - 1 / L2)"
    "e * (1 - 1 / L1 + m) - e = e * (m - 1 / L1)"
    "e * (1 + 1 / L2 - m) - e = e * (1 / L2 - m)"
    "e * (1 + 1 / L1 - m) - e = e * (1 / L1 - m)"
    by (simp_all add: algebra_simps)
  have b: "\<And>x y. (\<bar>e * x\<bar> < \<bar>e * y\<bar>) = (\<bar>x\<bar> < \<bar>y\<bar>)"
    using assms(1) by (simp add: abs_mult)
  show "(\<bar>e * (1 - 1 / L2 + m) - e\<bar> < \<bar>e * (1 - 1 / L1 + m) - e\<bar>)
          = (m < (1 / L1 + 1 / L2) / 2)"
    unfolding a b using inv by (auto simp: abs_if field_simps)
  show "(\<bar>e * (1 + 1 / L2 - m) - e\<bar> < \<bar>e * (1 + 1 / L1 - m) - e\<bar>)
          = (m < (1 / L1 + 1 / L2) / 2)"
    unfolding a b using inv by (auto simp: abs_if field_simps)
qed

text \<open>
  Claim C4, as the code has it. For a leverage other than 0, \<^verbatim>\<open>calculateLiquidationPrice\<close>
  returns \<open>entryPrice * (1 - 1 / leverage + maintenanceMargin)\<close> for a long and
  \<open>entryPrice * (1 + 1 / leverage - maintenanceMargin)\<close> for a short. For
  \<open>entryPrice > 0\<close> and leverages \<open>L2 > L1 > 1\<close>, the price at \<open>L2\<close> is strictly closer to
  the entry price than the price at \<open>L1\<close> exactly when
  \<open>maintenanceMargin < (1 / L1 + 1 / L2) / 2\<close>, hence whenever
  \<open>maintenanceMargin \<le> 1 / L2\<close>, and not for every maintenance margin.
\<close>

theorem calculateLiquidationPrice_closer_iff:
  "(leverage \<noteq> 0 \<longrightarrow>
      calculateLiquidationPrice entryPrice leverage False m
        = Fin (entryPrice * (1 - 1 / leverage + m))
      \<and> calculateLiquidationPrice entryPrice leverage True m
          = Fin (entryPrice * (1 + 1 / leverage - m)))
   \<and> (0 < entryPrice \<and> 1 < L1 \<and> L1 < L2 \<longrightarrow>
        (\<exists>p1 p2. calculateLiquidationPrice entryPrice L1 isShort m = Fin p1
           \<and> calculateLiquidationPrice entryPrice L2 isShort m = Fin p2
           \<and> ((\<bar>p2 - entryPrice\<bar> < \<bar>p1 - entryPrice\<bar>) = (m < (1 / L1 + 1 / L2) / 2))
           \<and> (m \<le> 1 / L2 \<longrightarrow> \<bar>p2 - entryPrice\<bar> < \<bar>p1 - entryPrice\<bar>)))"
proof (intro conjI impI)
  assume "leverage \<noteq> 0"
  then show "calculateLiquidationPrice entryPrice leverage False m
      = Fin (entryPrice * (1 - 1 / leverage + m))"
    and "calculateLiquidationPrice entryPrice leverage True m
      = Fin (entryPrice * (1 + 1 / leverage - m))"
    by (simp_all add: calculateLiquidationPrice_formula)
next
  assume h: "0 < entryPrice \<and> 1 < L1 \<and> L1 < L2"
  then have e: "0 < entryPrice" and l1: "1 < L1" and l2: "L1 < L2"
    by simp_all
  let ?p = "\<lambda>L. if isShort then entryPrice * (1 + 1 / L - m) else entryPrice * (1 - 1 / L + m)"
  have p1: "calculateLiquidationPrice entryPrice L1 isShort m = Fin (?p L1)"
    using l1 by (intro calculateLiquidationPrice_formula) simp
  have p2: "calculateLiquidationPrice entryPrice L2 isShort m = Fin (?p L2)"
    using l1 l2 by (intro calculateLiquidationPrice_formula) simp
  have iff: "(\<bar>?p L2 - entryPrice\<bar> < \<bar>?p L1 - entryPrice\<bar>) = (m < (1 / L1 + 1 / L2) / 2)"
    using closer_to_entry_iff[OF e l1 l2, of m] by simp
  have "1 / L2 < 1 / L1"
    using l1 l2 by (simp add: frac_less2)
  then have "m \<le> 1 / L2 \<longrightarrow> m < (1 / L1 + 1 / L2) / 2"
    by simp
  with iff have imp: "m \<le> 1 / L2 \<longrightarrow> \<bar>?p L2 - entryPrice\<bar> < \<bar>?p L1 - entryPrice\<bar>"
    by simp
  show "\<exists>p1 p2. calculateLiquidationPrice entryPrice L1 isShort m = Fin p1
           \<and> calculateLiquidationPrice entryPrice L2 isShort m = Fin p2
           \<and> ((\<bar>p2 - entryPrice\<bar> < \<bar>p1 - entryPrice\<bar>) = (m < (1 / L1 + 1 / L2) / 2))
           \<and> (m \<le> 1 / L2 \<longrightarrow> \<bar>p2 - entryPrice\<bar> < \<bar>p1 - entryPrice\<bar>)"
    using p1 p2 iff imp by blast
qed

text \<open>
  The theorem for a long entered at 100 with the default maintenance margin 0.005, at
  the leverages 5 and 10: the prices are 80.5 and 90.5.
\<close>

theorem calculateLiquidationPrice_closer_iff_witness:
  "(10::real) \<noteq> 0
   \<and> calculateLiquidationPrice 100 10 False (5 / 1000) = Fin (181 / 2)
   \<and> calculateLiquidationPrice 100 10 True (5 / 1000) = Fin (219 / 2)
   \<and> (0::real) < 100 \<and> (1::real) < 5 \<and> (5::real) < 10
   \<and> calculateLiquidationPrice 100 5 False (5 / 1000) = Fin (161 / 2)
   \<and> \<bar>181 / 2 - 100\<bar> < \<bar>161 / 2 - (100::real)\<bar>
   \<and> (5 / 1000 :: real) < (1 / 5 + 1 / 10) / 2"
proof -
  have "calculateLiquidationPrice 100 5 False (5 / 1000) = Fin (161 / 2)"
    and "calculateLiquidationPrice 100 10 False (5 / 1000) = Fin (181 / 2)"
    by (simp_all add: calculateLiquidationPrice_def Let_def js_sub_def)
  then show ?thesis
    using calculateLiquidationPrice_closer_iff[of 10 100 "5 / 1000" 5 10 False]
    by simp
qed

text \<open>
  The claim as stated holds the higher leverage to be closer for every maintenance
  margin. For a long entered at 100 with the default margin 0.005, the price at leverage
  200 is the entry price itself, and the price at leverage 400 is 100.25.
\<close>

theorem calculateLiquidationPrice_not_closer:
  "calculateLiquidationPrice 100 200 False (5 / 1000) = Fin 100
   \<and> calculateLiquidationPrice 100 400 False (5 / 1000) = Fin (401 / 4)
   \<and> \<not> (\<bar>401 / 4 - 100\<bar> < \<bar>100 - (100::real)\<bar>)"
  by (simp add: calculateLiquidationPrice_def Let_def js_sub_def)

lemma foldl_plus_sum_list:
  "foldl (\<lambda>sum p. sum + f p) a ps = a + (\<Sum>p\<leftarrow>ps. (f p :: real))"
  by (induction ps arbitrary: a) simp_all

lemma map_of_obj_set: "map_of (obj_set d k v) = (map_of d)(k \<mapsto> v)"
  by (induction d k v rule: obj_set.induct) auto

lemma keys_obj_set: "fst ` set (obj_set d k v) = insert k (fst ` set d)"
  by (induction d k v rule: obj_set.induct) auto

lemma distinct_obj_set: "distinct (map fst d) \<Longrightarrow> distinct (map fst (obj_set d k v))"
proof (induction d k v rule: obj_set.induct)
  case (1 k v)
  then show ?case by simp
next
  case (2 k' v' d k v)
  then show ?case
    using keys_obj_set[of d k v] by (auto simp: image_iff)
qed

lemma set_obj_set: "set (obj_set d k v) \<subseteq> insert (k, v) (set d)"
  by (induction d k v rule: obj_set.induct) auto

lemma all_nums_obj_set: "all_nums d \<Longrightarrow> all_nums (obj_set d k (PNum x))"
  using set_obj_set[of d k "PNum x"] unfolding all_nums_def by fastforce

lemma all_nums_map_of: "all_nums d \<Longrightarrow> map_of d k = Some v \<Longrightarrow> \<exists>x. v = PNum x"
  unfolding all_nums_def by (fastforce dest: map_of_SomeD)

text \<open>Under a plain name an object of numbers gains the percentage, as a map would.\<close>

lemma add_percent_plain:
  assumes "all_nums d" and "k \<notin> set Object_prototype_names"
  shows "add_percent d k pc = obj_set d k (PNum (held d k + pc))"
proof (cases "map_of d k")
  case None
  with assms show ?thesis
    by (simp add: add_percent_def held_def)
next
  case (Some v)
  with all_nums_map_of[OF assms(1) Some] show ?thesis
    by (auto simp: add_percent_def held_def)
qed

lemma held_obj_set: "held (obj_set d k (PNum x)) k' = (if k' = k then x else held d k')"
  by (simp add: held_def map_of_obj_set)

lemma fill_Nil: "fill t d [] = d"
  by (simp add: fill_def)

lemma fill_Cons:
  "fill t d (p # ps) =
     fill t (add_percent d (exchange p) (if t > 0 then \<bar>pos_value p\<bar> / t * 100 else 0)) ps"
  by (simp add: fill_def)

text \<open>
  The invariant of the filling loop: the names stay distinct, the values stay numbers,
  and each exchange holds the percentage of its accumulated exposure.
\<close>

lemma fill_invariant:
  assumes "all_nums d" and "distinct (map fst d)" and "plain_names ps" and "0 < t"
  shows "all_nums (fill t d ps) \<and> distinct (map fst (fill t d ps)) \<and>
         fst ` set (fill t d ps) = fst ` set d \<union> exchange ` set ps \<and>
         (\<forall>k. held (fill t d ps) k = held d k + exchange_exposure ps k / t * 100)"
  using assms
proof (induction ps arbitrary: d)
  case Nil
  then show ?case
    by (simp add: fill_Nil exchange_exposure_def)
next
  case (Cons p ps)
  let ?pc = "\<bar>pos_value p\<bar> / t * 100"
  let ?d = "obj_set d (exchange p) (PNum (held d (exchange p) + ?pc))"
  have plain: "exchange p \<notin> set Object_prototype_names" "plain_names ps"
    using Cons.prems(3) by (simp_all add: plain_names_def)
  have step: "add_percent d (exchange p) ?pc = ?d"
    using add_percent_plain[OF Cons.prems(1) plain(1)] .
  have f: "fill t d (p # ps) = fill t ?d ps"
    using Cons.prems(4) step by (simp add: fill_Cons)
  have IH: "all_nums (fill t ?d ps) \<and> distinct (map fst (fill t ?d ps)) \<and>
         fst ` set (fill t ?d ps) = fst ` set ?d \<union> exchange ` set ps \<and>
         (\<forall>k. held (fill t ?d ps) k = held ?d k + exchange_exposure ps k / t * 100)"
    by (rule Cons.IH[OF all_nums_obj_set[OF Cons.prems(1)]
          distinct_obj_set[OF Cons.prems(2)] plain(2) Cons.prems(4)])
  have h: "\<And>k. held ?d k + exchange_exposure ps k / t * 100
             = held d k + exchange_exposure (p # ps) k / t * 100"
    by (simp add: held_obj_set exchange_exposure_def add_divide_distrib algebra_simps)
  show ?case
    unfolding f using IH h by (simp add: keys_obj_set)
qed

lemma js_square: "js_pow (js_div (Fin v) (Fin 100)) (Fin 2) = Fin ((v / 100)\<^sup>2)"
  by (simp add: is_integer_def)

lemma concentration_of_numbers:
  "all_nums d \<Longrightarrow>
   foldl (\<lambda>sum p. js_add sum (js_pow (js_div (to_number p) (Fin 100)) (Fin 2)))
         (Fin a) (map snd d)
     = Fin (a + (\<Sum>kv\<leftarrow>d. (prop_num (snd kv) / 100)\<^sup>2))"
proof (induction d arbitrary: a)
  case Nil
  then show ?case by simp
next
  case (Cons kv d)
  from Cons.prems obtain x where x: "snd kv = PNum x"
    by (auto simp: all_nums_def)
  from Cons.prems have "all_nums d"
    by (simp add: all_nums_def)
  from Cons.IH[OF this] show ?case
    by (simp add: x js_square del: js_pow.simps js_div.simps add: add.assoc)
qed

lemma sum_list_distinct_keys:
  assumes "distinct (map fst d)"
  shows "(\<Sum>kv\<leftarrow>d. g (prop_num (snd kv))) = (\<Sum>k\<in>fst ` set d. g (held d k))"
proof -
  have "\<And>kv. kv \<in> set d \<Longrightarrow> held d (fst kv) = prop_num (snd kv)"
    using assms by (auto simp: held_def)
  then have "(\<Sum>kv\<leftarrow>d. g (prop_num (snd kv))) = (\<Sum>kv\<leftarrow>d. g (held d (fst kv)))"
    by (intro arg_cong[where f=sum_list] map_cong) simp_all
  also have "\<dots> = (\<Sum>k\<leftarrow>map fst d. g (held d k))"
    by (simp add: comp_def)
  also have "\<dots> = (\<Sum>k\<in>set (map fst d). g (held d k))"
    using assms by (rule sum_list_distinct_conv_sum_set)
  finally show ?thesis by simp
qed

text \<open>The exposures of the exchanges add up to the total exposure.\<close>

lemma exposure_by_exchange:
  assumes "finite A" and "exchange ` set ps \<subseteq> A"
  shows "(\<Sum>k\<in>A. exchange_exposure ps k) = total_exposure ps"
  using assms(2)
proof (induction ps)
  case Nil
  then show ?case
    by (simp add: exchange_exposure_def total_exposure_def)
next
  case (Cons p ps)
  have "\<And>k. exchange_exposure (p # ps) k
          = (if k = exchange p then \<bar>pos_value p\<bar> else 0) + exchange_exposure ps k"
    by (simp add: exchange_exposure_def)
  then have "(\<Sum>k\<in>A. exchange_exposure (p # ps) k)
      = (\<Sum>k\<in>A. if k = exchange p then \<bar>pos_value p\<bar> else 0)
        + (\<Sum>k\<in>A. exchange_exposure ps k)"
    by (simp add: sum.distrib)
  also have "(\<Sum>k\<in>A. if k = exchange p then \<bar>pos_value p\<bar> else 0) = \<bar>pos_value p\<bar>"
    using Cons.prems assms(1) by simp
  finally show ?case
    using Cons by (simp add: total_exposure_def)
qed

lemma exchange_exposure_nonneg: "0 \<le> exchange_exposure ps k"
  unfolding exchange_exposure_def by (rule sum_list_nonneg) auto

text \<open>
  Non-negative shares that add up to 1: their squares add up to at least one over their
  number (the squared distances from the mean are non-negative) and to at most 1.
\<close>

lemma sum_squares_bounds:
  fixes s :: "'a \<Rightarrow> real"
  assumes "finite K" and "K \<noteq> {}" and "\<And>k. k \<in> K \<Longrightarrow> 0 \<le> s k"
    and "(\<Sum>k\<in>K. s k) = 1"
  shows "1 / real (card K) \<le> (\<Sum>k\<in>K. (s k)\<^sup>2)" and "(\<Sum>k\<in>K. (s k)\<^sup>2) \<le> 1"
proof -
  let ?n = "real (card K)"
  have n: "0 < ?n"
    using assms(1,2) by (simp add: card_gt_0_iff)
  have "0 \<le> (\<Sum>k\<in>K. (s k - 1 / ?n)\<^sup>2)"
    by (rule sum_nonneg) simp
  also have "(\<Sum>k\<in>K. (s k - 1 / ?n)\<^sup>2)
      = (\<Sum>k\<in>K. (s k)\<^sup>2 - (2 / ?n) * s k + (1 / ?n)\<^sup>2)"
    by (intro sum.cong refl) (simp add: power2_diff algebra_simps)
  also have "\<dots> = (\<Sum>k\<in>K. (s k)\<^sup>2) - (2 / ?n) * (\<Sum>k\<in>K. s k) + ?n * (1 / ?n)\<^sup>2"
    by (simp add: sum.distrib sum_subtractf sum_distrib_left)
  also have "?n * (1 / ?n)\<^sup>2 = 1 / ?n"
    using n by (simp add: power2_eq_square)
  finally show "1 / ?n \<le> (\<Sum>k\<in>K. (s k)\<^sup>2)"
    using assms(4) by simp
  have le1: "s k \<le> 1" if "k \<in> K" for k
  proof -
    have "s k \<le> (\<Sum>k\<in>K. s k)"
      using assms(1,3) that by (intro member_le_sum) auto
    then show ?thesis
      using assms(4) by simp
  qed
  have "(\<Sum>k\<in>K. (s k)\<^sup>2) \<le> (\<Sum>k\<in>K. s k)"
  proof (rule sum_mono)
    fix k assume k: "k \<in> K"
    have "s k * s k \<le> 1 * s k"
      using le1[OF k] assms(3)[OF k] by (intro mult_right_mono) auto
    then show "(s k)\<^sup>2 \<le> s k"
      by (simp add: power2_eq_square)
  qed
  then show "(\<Sum>k\<in>K. (s k)\<^sup>2) \<le> 1"
    using assms(4) by simp
qed

text \<open>
  Claim C7, as the code has it. For every non-empty list of positions whose total absolute
  exposure is positive, and whose exchange names are not names of members of
  \<^verbatim>\<open>Object.prototype\<close>, the \<^verbatim>\<open>concentration\<close> returned by \<^verbatim>\<open>calculateCounterpartyRisk\<close> is the
  sum over the distinct exchanges of the squared fractional share of the total absolute
  exposure, and it lies between \<open>1 / n\<close> and 1, where \<open>n\<close> is the number of distinct
  exchanges.
\<close>

theorem concentration_share_squares:
  assumes "positions \<noteq> []" and "0 < total_exposure positions" and "plain_names positions"
  shows "concentration (calculateCounterpartyRisk positions) = Fin (share_squares positions)
       \<and> 1 / real (card (set (map exchange positions))) \<le> share_squares positions
       \<and> share_squares positions \<le> 1"
proof -
  let ?t = "total_exposure positions"
  let ?K = "set (map exchange positions)"
  let ?d = "fill ?t [] positions"
  have total: "foldl (\<lambda>sum p. sum + \<bar>pos_value p\<bar>) 0 positions = ?t"
    by (simp add: foldl_plus_sum_list total_exposure_def)
  have inv: "all_nums ?d" "distinct (map fst ?d)" "fst ` set ?d = ?K"
    "\<And>k. held ?d k = exchange_exposure positions k / ?t * 100"
    using fill_invariant[of "[]" positions ?t] assms(2,3)
    by (simp_all add: all_nums_def held_def)
  have "concentration (calculateCounterpartyRisk positions)
      = foldl (\<lambda>sum p. js_add sum (js_pow (js_div (to_number p) (Fin 100)) (Fin 2)))
              (Fin 0) (map snd ?d)"
    unfolding calculateCounterpartyRisk_def Let_def total fill_def by simp
  also have "\<dots> = Fin (\<Sum>kv\<leftarrow>?d. (prop_num (snd kv) / 100)\<^sup>2)"
    using concentration_of_numbers[OF inv(1), of 0] by simp
  also have "(\<Sum>kv\<leftarrow>?d. (prop_num (snd kv) / 100)\<^sup>2) = (\<Sum>k\<in>?K. (held ?d k / 100)\<^sup>2)"
    using sum_list_distinct_keys[OF inv(2), of "\<lambda>x. (x / 100)\<^sup>2"] inv(3) by simp
  also have "\<dots> = share_squares positions"
    by (simp add: inv(4) share_squares_def exposure_share_def)
  finally have eq:
    "concentration (calculateCounterpartyRisk positions) = Fin (share_squares positions)" .
  have K: "finite ?K" "?K \<noteq> {}"
    using assms(1) by auto
  have nonneg: "\<And>k. k \<in> ?K \<Longrightarrow> 0 \<le> exposure_share positions k"
    using assms(2) by (simp add: exposure_share_def exchange_exposure_nonneg)
  have one: "(\<Sum>k\<in>?K. exposure_share positions k) = 1"
    using exposure_by_exchange[of ?K positions] assms(2)
    by (simp add: exposure_share_def sum_divide_distrib[symmetric])
  show ?thesis
    using eq sum_squares_bounds[OF K nonneg one] by (simp add: share_squares_def)
qed

text \<open>
  The theorem for 600 at one exchange and a short of 400 at another: the shares are 0.6
  and 0.4, and the concentration is 0.52.
\<close>

theorem concentration_share_squares_witness:
  "[\<lparr>exchange = ''binance'', pos_value = 600\<rparr>, \<lparr>exchange = ''bybit'', pos_value = - 400\<rparr>] \<noteq> []
   \<and> 0 < total_exposure
           [\<lparr>exchange = ''binance'', pos_value = 600\<rparr>, \<lparr>exchange = ''bybit'', pos_value = - 400\<rparr>]
   \<and> plain_names
       [\<lparr>exchange = ''binance'', pos_value = 600\<rparr>, \<lparr>exchange = ''bybit'', pos_value = - 400\<rparr>]
   \<and> concentration (calculateCounterpartyRisk
         [\<lparr>exchange = ''binance'', pos_value = 600\<rparr>, \<lparr>exchange = ''bybit'', pos_value = - 400\<rparr>])
       = Fin (13 / 25)
   \<and> (1::real) / 2 \<le> 13 / 25 \<and> (13::real) / 25 \<le> 1"
proof -
  let ?ps = "[\<lparr>exchange = ''binance'', pos_value = 600\<rparr>,
              \<lparr>exchange = ''bybit'', pos_value = - 400\<rparr>]"
  have h: "?ps \<noteq> []" "0 < total_exposure ?ps" "plain_names ?ps"
    by (simp_all add: total_exposure_def plain_names_def Object_prototype_names_def)
  have s: "share_squares ?ps = 13 / 25"
    by (simp add: share_squares_def exposure_share_def exchange_exposure_def
        total_exposure_def power2_eq_square)
  show ?thesis
    using concentration_share_squares[OF h] h s by simp
qed

text \<open>
  The claim as stated covers every non-empty list. For one position of value 0 the guard
  \<^verbatim>\<open>total > 0\<close> makes every percentage 0: the concentration is 0, below \<open>1 / n = 1\<close>.
\<close>

theorem concentration_zero_exposure:
  "concentration (calculateCounterpartyRisk [\<lparr>exchange = ''binance'', pos_value = 0\<rparr>]) = Fin 0
   \<and> card (set (map exchange [\<lparr>exchange = ''binance'', pos_value = 0\<rparr>])) = 1
   \<and> \<not> (1 / real (card (set (map exchange [\<lparr>exchange = ''binance'', pos_value = 0\<rparr>])))
          \<le> (0::real))"
  by (simp add: calculateCounterpartyRisk_def add_percent_def Object_prototype_names_def)

text \<open>
  An exchange named like a member of \<^verbatim>\<open>Object.prototype\<close> makes the stored value a string
  and the concentration \<open>NaN\<close>.
\<close>

lemma concentration_inherited_name:
  "concentration (calculateCounterpartyRisk [\<lparr>exchange = ''toString'', pos_value = 10\<rparr>]) = NaN"
  by (simp add: calculateCounterpartyRisk_def add_percent_def Object_prototype_names_def)

end
